theory Spec2Isabelle
  imports Complex_Main "HOL-Library.Word" "HOL-Library.Log_Nat" "HOL-Library.Sublist"
    "HOL-Library.Monad_Syntax"
begin

section \<open>Platform values: strings and numbers\<close>

subsection \<open>Strings\<close>

text \<open>
  A JavaScript string is a sequence of 16-bit code units; \<open>length\<close> counts code units,
  as \<^verbatim>\<open>String.prototype.length\<close> does.  A string literal of the source made of ASCII
  characters is written \<open>lit ''...''\<close>; the Urdu literals are written as their code units.
\<close>

type_synonym jsstring = "16 word list"

definition lit :: "string \<Rightarrow> jsstring" where
  "lit s = map (\<lambda>c. of_nat (of_char c)) s"

text \<open>\<^verbatim>\<open>text.includes(keyword)\<close>: the keyword occurs as a contiguous run of code units.\<close>

definition includes_str :: "jsstring \<Rightarrow> jsstring \<Rightarrow> bool" where
  "includes_str text keyword = sublist keyword text"

text \<open>
  \<^verbatim>\<open>xs.slice(start)\<close> with one argument: a negative start counts from the end and is
  clamped at the beginning, a positive one is clamped at the end.
\<close>

definition slice_from :: "int \<Rightarrow> 'a list \<Rightarrow> 'a list" where
  "slice_from start xs =
     (let len = int (length xs);
          k = (if start < 0 then max (len + start) 0 else min start len)
      in drop (nat k) xs)"

text \<open>\<^verbatim>\<open>xs[i]\<close> for an integer-valued number \<open>i\<close>: \<open>None\<close> stands for \<^verbatim>\<open>undefined\<close>.\<close>

definition index :: "'a list \<Rightarrow> int \<Rightarrow> 'a option" where
  "index xs i = (if 0 \<le> i \<and> nat i < length xs then Some (xs ! nat i) else None)"

subsection \<open>Numbers\<close>

text \<open>
  A JavaScript number is an IEEE 754 double.  Finite doubles are rationals; an arithmetic
  operation computes the exact result and rounds it to the nearest double, ties to the
  even significand.  \<open>ulp x\<close> is the spacing of the doubles around \<open>x\<close>: \<open>2 ^ (e - 52)\<close>
  where \<open>2 ^ e \<le> \<bar>x\<bar> < 2 ^ (e + 1)\<close>, and \<open>2 ^ (- 1074)\<close> in the subnormal range.
  Overflow to infinity (above \<open>2 ^ 1024\<close>) is not modelled: no number of the programs
  below comes near it.
\<close>

definition round_half_even :: "rat \<Rightarrow> int" where
  "round_half_even r =
     (let f = \<lfloor>r\<rfloor>; d = r - of_int f
      in if d < 1 / 2 then f
         else if 1 / 2 < d then f + 1
         else if even f then f else f + 1)"

definition ulp :: "rat \<Rightarrow> rat" where
  "ulp x =
     (let a = \<bar>x\<bar>
      in if 1 \<le> a then 2 ^ nat (bitlen \<lfloor>a\<rfloor> - 1) / 2 ^ 52
         else if a = 0 then 1 / 2 ^ 1074
         else let j = nat (bitlen (\<lceil>1 / a\<rceil> - 1))
              in if 1022 < j then 1 / 2 ^ 1074 else 1 / 2 ^ (j + 52))"

definition fl :: "rat \<Rightarrow> rat" where
  "fl x = of_int (round_half_even (x / ulp x)) * ulp x"


text \<open>
  \<^verbatim>\<open>xs[Math.floor(Math.random() * xs.length)]\<close>, for the value \<open>rnd\<close> that
  \<^verbatim>\<open>Math.random()\<close> returned.
\<close>

definition random_element :: "rat \<Rightarrow> 'a list \<Rightarrow> 'a option" where
  "random_element rnd xs = index xs \<lfloor>fl (rnd * of_nat (length xs))\<rfloor>"


section \<open>The language model service (src/services/LanguageModel.ts)\<close>

datatype role_tag = User | Assistant

record Message =
  role :: role_tag
  content :: jsstring
  timestamp :: nat

record LanguageModel =
  conversationHistory :: "Message list"

text \<open>The body that \<open>callChatAPI\<close> hands to \<^verbatim>\<open>JSON.stringify\<close>.\<close>

record chat_request =
  req_message :: jsstring
  req_conversationHistory :: "Message list"

text \<open>
  What comes back from \<^verbatim>\<open>fetch\<close>: the promise rejects, or there is a response with its
  \<open>ok\<close> flag and the outcome of \<^verbatim>\<open>response.json()\<close> (\<open>None\<close> when that rejects).
  The fields of the parsed body are read with JavaScript truthiness: a missing \<open>success\<close>
  is \<open>False\<close>, a missing \<open>error\<close> is the empty string.
\<close>

record chat_data =
  success :: bool
  response :: jsstring
  error :: jsstring

datatype fetch_result = Rejected | Responded bool "chat_data option"

datatype js_error = FetchRejected | JsonRejected | Error jsstring

text \<open>
  What the platform supplies during one call of \<open>processUrduText\<close>: the two readings of
  the clock, the answer of the network to the request, the value of \<^verbatim>\<open>Math.random()\<close>
  and \<^verbatim>\<open>String.prototype.toLowerCase\<close>.
\<close>

record platform =
  now_user :: nat
  fetch :: "chat_request \<Rightarrow> fetch_result"
  now_assistant :: nat
  random :: rat
  toLowerCase :: "jsstring \<Rightarrow> jsstring"

definition push :: "LanguageModel \<Rightarrow> Message \<Rightarrow> LanguageModel" where
  "push this m = this\<lparr>conversationHistory := conversationHistory this @ [m]\<rparr>"

definition chat_request_body :: "LanguageModel \<Rightarrow> jsstring \<Rightarrow> chat_request" where
  "chat_request_body this message =
     \<lparr>req_message = message,
      req_conversationHistory = slice_from (- 6) (conversationHistory this)\<rparr>"

definition callChatAPI :: "platform \<Rightarrow> LanguageModel \<Rightarrow> jsstring \<Rightarrow> js_error + jsstring" where
  "callChatAPI env this message =
     (case fetch env (chat_request_body this message) of
        Rejected \<Rightarrow> Inl FetchRejected
      | Responded ok body \<Rightarrow>
          if \<not> ok then Inl (Error (lit ''API request failed''))
          else (case body of
                  None \<Rightarrow> Inl JsonRejected
                | Some data \<Rightarrow>
                    if \<not> success data
                    then Inl (Error (if error data \<noteq> [] then error data
                                     else lit ''API returned error''))
                    else Inr (response data)))"

definition containsAny :: "jsstring \<Rightarrow> jsstring list \<Rightarrow> bool" where
  "containsAny text keywords = list_ex (\<lambda>keyword. includes_str text keyword) keywords"

definition greetings :: "jsstring list" where
  "greetings =
     [lit ''Hello! How can I help you today?'',
      lit ''Hi there! What can I do for you?'',
      lit ''Hey! Nice to meet you. How are you?'']"

definition identity_response :: jsstring where
  "identity_response =
     lit ''I'm an AI assistant. I'm here to help you with questions and have conversations. What would you like to talk about?''"

definition how_are_you_responses :: "jsstring list" where
  "how_are_you_responses =
     [lit ''I'm doing great, thanks for asking! How about you?'',
      lit ''I'm functioning perfectly! How are you feeling today?'',
      lit ''I'm good! I hope you're having a great day too.'']"

definition thanks_responses :: "jsstring list" where
  "thanks_responses =
     [lit ''You're welcome! Is there anything else I can help with?'',
      lit ''No problem at all! Happy to help.'',
      lit ''My pleasure! Let me know if you need anything else.'']"

definition goodbye_responses :: "jsstring list" where
  "goodbye_responses =
     [lit ''Goodbye! It was nice talking with you.'',
      lit ''See you later! Have a great day!'',
      lit ''Take care! Feel free to come back anytime.'']"

definition default_response :: jsstring where
  "default_response = lit ''That's interesting! Tell me more about that.''"

definition generateFallbackResponse :: "platform \<Rightarrow> jsstring \<Rightarrow> jsstring option" where
  "generateFallbackResponse env input =
     (let lowerInput = toLowerCase env input
      in if containsAny lowerInput
              (map lit [''hello'', ''hi'', ''hey'', ''good morning'', ''good afternoon'',
                        ''good evening''])
         then random_element (random env) greetings
         else if containsAny lowerInput (map lit [''name'', ''who are you'', ''what are you''])
         then Some identity_response
         else if containsAny lowerInput
              (map lit [''how are you'', ''how are you doing'', ''how do you do''])
         then random_element (random env) how_are_you_responses
         else if containsAny lowerInput (map lit [''thank you'', ''thanks'', ''appreciate it''])
         then random_element (random env) thanks_responses
         else if containsAny lowerInput (map lit [''goodbye'', ''bye'', ''see you'', ''take care''])
         then random_element (random env) goodbye_responses
         else Some default_response)"

text \<open>
  \<open>processUrduText\<close> returns the value of the promise (\<open>Inl\<close> a rejection) and the object
  after the call.  A call is taken as one step: the history is read and written only
  by the pushes below, before and after the \<^verbatim>\<open>await\<close>.
\<close>

definition processUrduText ::
  "platform \<Rightarrow> LanguageModel \<Rightarrow> jsstring \<Rightarrow> (js_error + jsstring option) \<times> LanguageModel" where
  "processUrduText env this userInput =
     (let this1 = push this \<lparr>role = User, content = userInput, timestamp = now_user env\<rparr>
      in case callChatAPI env this1 userInput of
           Inr reply \<Rightarrow>
             (Inr (Some reply),
              push this1 \<lparr>role = Assistant, content = reply,
                          timestamp = now_assistant env\<rparr>)
         | Inl e \<Rightarrow> (Inr (generateFallbackResponse env userInput), this1))"

definition getConversationHistory :: "LanguageModel \<Rightarrow> Message list \<times> LanguageModel" where
  "getConversationHistory this = (conversationHistory this, this)"

definition clearHistory :: "LanguageModel \<Rightarrow> LanguageModel" where
  "clearHistory this = this\<lparr>conversationHistory := []\<rparr>"

definition new_LanguageModel :: LanguageModel where
  "new_LanguageModel = \<lparr>conversationHistory = []\<rparr>"

text \<open>A sequence of \<open>processUrduText\<close> calls, each with its input and its platform.\<close>

fun process_all :: "(platform \<times> jsstring) list \<Rightarrow> LanguageModel \<Rightarrow> LanguageModel" where
  "process_all [] this = this"
| "process_all ((env, userInput) # calls) this =
     process_all calls (snd (processUrduText env this userInput))"


text \<open>
  A platform to run the service on: the network is down, the clock stands at 0,
  \<^verbatim>\<open>Math.random()\<close> gives 0.5 and lower-casing maps the letters A to Z.
\<close>

definition ascii_lower :: "jsstring \<Rightarrow> jsstring" where
  "ascii_lower s = map (\<lambda>c. if 65 \<le> c \<and> c \<le> 90 then c + 32 else c) s"

definition offline :: platform where
  "offline = \<lparr>now_user = 0, fetch = (\<lambda>_. Rejected), now_assistant = 0, random = 1 / 2,
              toLowerCase = ascii_lower\<rparr>"


section \<open>The speech-to-text route (src/app/api/speech-to-text/route.ts)\<close>

text \<open>
  An entry of the submitted form is a string or a file; \<^verbatim>\<open>formData.get\<close> gives \<open>None\<close>
  (\<^verbatim>\<open>null\<close>) for a missing entry.  A file has a name and its bytes.
\<close>

type_synonym byte = "8 word"

datatype form_value = FormString jsstring | FormFile jsstring "byte list"

record stt_form =
  form_audio :: "form_value option"
  form_urduType :: "form_value option"

text \<open>
  The JSON replies of the route.  The \<open>confidence\<close> field of a success reply is drawn
  from \<^verbatim>\<open>Math.random()\<close>; it is left out, nothing below reads it.
\<close>

datatype stt_response =
    Transcribed jsstring form_value jsstring
  | Failed nat jsstring

definition response_text :: "stt_response \<Rightarrow> jsstring option" where
  "response_text r =
     (case r of Transcribed text urduType method \<Rightarrow> Some text | Failed status msg \<Rightarrow> None)"

definition response_method :: "stt_response \<Rightarrow> jsstring option" where
  "response_method r =
     (case r of Transcribed text urduType method \<Rightarrow> Some method | Failed status msg \<Rightarrow> None)"

text \<open>The transcripts of \<open>processAudioWithWebSpeechAPI\<close>, in Roman and in Urdu script.\<close>

definition hello_roman :: jsstring where
  "hello_roman =
     lit ''Hello''"

definition hello_pure :: jsstring where
  "hello_pure =
     [0x06C1, 0x06CC, 0x0644, 0x0648]"

definition aap_kaise_hain_roman :: jsstring where
  "aap_kaise_hain_roman =
     lit ''Aap kaise hain?''"

definition aap_kaise_hain_pure :: jsstring where
  "aap_kaise_hain_pure =
     [0x0622, 0x067E, 0x0020, 0x06A9, 0x06CC, 0x0633, 0x06D2, 0x0020, 0x06C1, 0x06CC,
      0x06BA, 0x061F]"

definition mujhe_urdu_roman :: jsstring where
  "mujhe_urdu_roman =
     lit ''Mujhe Urdu mein baat karni hai''"

definition mujhe_urdu_pure :: jsstring where
  "mujhe_urdu_pure =
     [0x0645, 0x062C, 0x06BE, 0x06D2, 0x0020, 0x0627, 0x0631, 0x062F, 0x0648, 0x0020,
      0x0645, 0x06CC, 0x06BA, 0x0020, 0x0628, 0x0627, 0x062A, 0x0020, 0x06A9, 0x0631,
      0x0646, 0x06CC, 0x0020, 0x06C1, 0x06D2]"

definition main_aaj_roman :: jsstring where
  "main_aaj_roman =
     lit ''Main aaj bahut khush hoon''"

definition main_aaj_pure :: jsstring where
  "main_aaj_pure =
     [0x0645, 0x06CC, 0x06BA, 0x0020, 0x0622, 0x062C, 0x0020, 0x0628, 0x06C1, 0x062A,
      0x0020, 0x062E, 0x0648, 0x0634, 0x0020, 0x06C1, 0x0648, 0x06BA]"

text \<open>The table \<open>simulatedTranscriptions\<close> of the fallback.\<close>

definition simulated_roman :: "jsstring list" where
  "simulated_roman =
     [lit ''Aap kaise hain?'',
      lit ''Mujhe Urdu mein baat karni hai'',
      lit ''Yeh kitne ka hai?'',
      lit ''Main aaj bahut khush hoon'',
      lit ''Kya aap mujhe madad kar sakte hain?'',
      lit ''Namaste, kya haal chaal hai?'',
      lit ''Main aap se baat karna chahta hoon'',
      lit ''Yeh bohat achha hai'',
      lit ''Shukriya bahut bahut'',
      lit ''Main theek hoon, aap sunaiye?'',
      lit ''Aap ka din kaisa guzra?'',
      lit ''Kya aaj koi khaas baat hai?'',
      lit ''Mujhe thoda help chahiye'',
      lit ''Aap se mil kar khushi hui'',
      lit ''Main abhi aaya hoon'']"

definition simulated_pure :: "jsstring list" where
  "simulated_pure =
     [[0x0622, 0x067E, 0x0020, 0x06A9, 0x06CC, 0x0633, 0x06D2, 0x0020, 0x06C1, 0x06CC,
       0x06BA, 0x061F],
      [0x0645, 0x062C, 0x06BE, 0x06D2, 0x0020, 0x0627, 0x0631, 0x062F, 0x0648, 0x0020,
       0x0645, 0x06CC, 0x06BA, 0x0020, 0x0628, 0x0627, 0x062A, 0x0020, 0x06A9, 0x0631,
       0x0646, 0x06CC, 0x0020, 0x06C1, 0x06D2],
      [0x06CC, 0x06C1, 0x0020, 0x06A9, 0x062A, 0x0646, 0x06D2, 0x0020, 0x06A9, 0x0627,
       0x0020, 0x06C1, 0x06D2, 0x061F],
      [0x0645, 0x06CC, 0x06BA, 0x0020, 0x0622, 0x062C, 0x0020, 0x0628, 0x06C1, 0x062A,
       0x0020, 0x062E, 0x0648, 0x0634, 0x0020, 0x06C1, 0x0648, 0x06BA],
      [0x06A9, 0x06CC, 0x0627, 0x0020, 0x0622, 0x067E, 0x0020, 0x0645, 0x062C, 0x06BE,
       0x06D2, 0x0020, 0x0645, 0x062F, 0x062F, 0x0020, 0x06A9, 0x0631, 0x0020, 0x0633,
       0x06A9, 0x062A, 0x06D2, 0x0020, 0x06C1, 0x06CC, 0x06BA, 0x061F],
      [0x0646, 0x0645, 0x0633, 0x062A, 0x06D2, 0x060C, 0x0020, 0x06A9, 0x06CC, 0x0627,
       0x0020, 0x062D, 0x0627, 0x0644, 0x0020, 0x0686, 0x0627, 0x0644, 0x0020, 0x06C1,
       0x06D2, 0x061F],
      [0x0645, 0x06CC, 0x06BA, 0x0020, 0x0622, 0x067E, 0x0020, 0x0633, 0x06D2, 0x0020,
       0x0628, 0x0627, 0x062A, 0x0020, 0x06A9, 0x0631, 0x0646, 0x0627, 0x0020, 0x0686,
       0x0627, 0x06C1, 0x062A, 0x0627, 0x0020, 0x06C1, 0x0648, 0x06BA],
      [0x06CC, 0x06C1, 0x0020, 0x0628, 0x06C1, 0x062A, 0x0020, 0x0627, 0x0686, 0x06BE,
       0x0627, 0x0020, 0x06C1, 0x06D2],
      [0x0634, 0x06A9, 0x0631, 0x06CC, 0x06C1, 0x0020, 0x0628, 0x06C1, 0x062A, 0x0020,
       0x0628, 0x06C1, 0x062A],
      [0x0645, 0x06CC, 0x06BA, 0x0020, 0x0679, 0x06BE, 0x06CC, 0x06A9, 0x0020, 0x06C1,
       0x0648, 0x06BA, 0x060C, 0x0020, 0x0622, 0x067E, 0x0020, 0x0633, 0x0646, 0x0627,
       0x0626, 0x06CC, 0x06D2, 0x061F],
      [0x0622, 0x067E, 0x0020, 0x06A9, 0x0627, 0x0020, 0x062F, 0x0646, 0x0020, 0x06A9,
       0x06CC, 0x0633, 0x06D2, 0x0020, 0x06AF, 0x0632, 0x0631, 0x0627, 0x061F],
      [0x06A9, 0x06CC, 0x0627, 0x0020, 0x0622, 0x062C, 0x0020, 0x06A9, 0x0648, 0x0626,
       0x06CC, 0x0020, 0x062E, 0x0627, 0x0635, 0x0020, 0x0628, 0x0627, 0x062A, 0x0020,
       0x06C1, 0x06D2, 0x061F],
      [0x0645, 0x062C, 0x06BE, 0x06D2, 0x0020, 0x062A, 0x06BE, 0x0648, 0x0691, 0x06CC,
       0x0020, 0x0645, 0x062F, 0x062F, 0x0020, 0x0686, 0x0627, 0x06C1, 0x06CC, 0x06D2],
      [0x0622, 0x067E, 0x0020, 0x0633, 0x06D2, 0x0020, 0x0645, 0x0644, 0x0020, 0x06A9,
       0x0631, 0x0020, 0x062E, 0x0648, 0x0634, 0x06CC, 0x0020, 0x06C1, 0x0648, 0x0626,
       0x06CC],
      [0x0645, 0x06CC, 0x06BA, 0x0020, 0x0627, 0x0628, 0x06BE, 0x06CC, 0x0020, 0x0622,
       0x06CC, 0x0627, 0x0020, 0x06C1, 0x0648, 0x06BA]]"

definition is_roman :: "form_value \<Rightarrow> bool" where
  "is_roman urduType = (urduType = FormString (lit ''roman''))"

text \<open>
  \<open>duration\<close> is \<^verbatim>\<open>audioLength / 32000\<close>, a division of doubles.  Nothing in the body of
  \<open>processAudioWithWebSpeechAPI\<close> can throw, so its \<^verbatim>\<open>catch\<close>, which returns
  \<^verbatim>\<open>null\<close>, is never entered; the result type keeps \<open>None\<close> for \<^verbatim>\<open>null\<close>.
\<close>

definition duration :: "nat \<Rightarrow> rat" where
  "duration audioLength = fl (of_nat audioLength / 32000)"

definition processAudioWithWebSpeechAPI :: "byte list \<Rightarrow> form_value \<Rightarrow> jsstring option" where
  "processAudioWithWebSpeechAPI audioBuffer urduType =
     (let audioLength = length audioBuffer
      in if duration audioLength < 1
         then Some (if is_roman urduType then hello_roman else hello_pure)
         else if duration audioLength < 2
         then Some (if is_roman urduType then aap_kaise_hain_roman else aap_kaise_hain_pure)
         else if duration audioLength < 3
         then Some (if is_roman urduType then mujhe_urdu_roman else mujhe_urdu_pure)
         else Some (if is_roman urduType then main_aaj_roman else main_aaj_pure))"

text \<open>
  \<^verbatim>\<open>simulatedTranscriptions[urduType]\<close>: the table has the keys \<open>roman\<close> and \<open>pure\<close>; for
  another key the lookup gives \<^verbatim>\<open>undefined\<close>, whose \<open>length\<close> throws.
\<close>

definition simulatedTranscriptions :: "form_value \<Rightarrow> jsstring list option" where
  "simulatedTranscriptions urduType =
     (if urduType = FormString (lit ''roman'') then Some simulated_roman
      else if urduType = FormString (lit ''pure'') then Some simulated_pure
      else None)"

definition simulated_fallback :: "byte list \<Rightarrow> form_value \<Rightarrow> stt_response" where
  "simulated_fallback buffer urduType =
     (case simulatedTranscriptions urduType of
        None \<Rightarrow> Failed 500 (lit ''Failed to process speech-to-text'')
      | Some transcriptions \<Rightarrow>
          (let seed = length buffer mod length transcriptions
           in Transcribed (transcriptions ! seed) urduType (lit ''simulated'')))"

text \<open>
  \<open>POST\<close>.  A missing or empty \<open>audio\<close> entry is answered with status 400; an entry that
  is a non-empty string has no \<^verbatim>\<open>arrayBuffer\<close> method, the call throws and the outer
  \<^verbatim>\<open>catch\<close> answers with status 500.  \<^verbatim>\<open>formData.get('urduType') || 'roman'\<close> replaces
  a missing or empty entry by \<open>roman\<close>.
\<close>

definition effective_urduType :: "form_value option \<Rightarrow> form_value" where
  "effective_urduType entry =
     (case entry of
        None \<Rightarrow> FormString (lit ''roman'')
      | Some (FormString s) \<Rightarrow> if s = [] then FormString (lit ''roman'') else FormString s
      | Some (FormFile name bytes) \<Rightarrow> FormFile name bytes)"

definition stt_POST :: "stt_form \<Rightarrow> stt_response" where
  "stt_POST form =
     (let audioFile = form_audio form;
          urduType = effective_urduType (form_urduType form)
      in case audioFile of
           None \<Rightarrow> Failed 400 (lit ''No audio file provided'')
         | Some (FormString s) \<Rightarrow>
             if s = [] then Failed 400 (lit ''No audio file provided'')
             else Failed 500 (lit ''Failed to process speech-to-text'')
         | Some (FormFile name buffer) \<Rightarrow>
             (case processAudioWithWebSpeechAPI buffer urduType of
                Some transcription \<Rightarrow>
                  if transcription \<noteq> []
                  then Transcribed transcription urduType (lit ''web_speech_api'')
                  else simulated_fallback buffer urduType
              | None \<Rightarrow> simulated_fallback buffer urduType))"

text \<open>The selection by thresholds on the byte length, as the claims describe it.\<close>

definition transcript_by_duration :: "nat \<Rightarrow> bool \<Rightarrow> jsstring" where
  "transcript_by_duration n roman =
     (if n < 32000 then (if roman then hello_roman else hello_pure)
      else if n < 64000 then (if roman then aap_kaise_hain_roman else aap_kaise_hain_pure)
      else if n < 96000 then (if roman then mujhe_urdu_roman else mujhe_urdu_pure)
      else (if roman then main_aaj_roman else main_aaj_pure))"


section \<open>The chat route (src/app/api/chat/route.ts)\<close>

text \<open>
  \<^verbatim>\<open>String.prototype.trim\<close> removes the white space and line terminator code units of
  ECMAScript from both ends.
\<close>

definition is_white_space :: "16 word \<Rightarrow> bool" where
  "is_white_space c =
     (c \<in> {0x0009, 0x000A, 0x000B, 0x000C, 0x000D, 0x0020, 0x00A0, 0x1680, 0x2028, 0x2029,
            0x202F, 0x205F, 0x3000, 0xFEFF} \<or> (0x2000 \<le> c \<and> c \<le> 0x200A))"

definition trim :: "jsstring \<Rightarrow> jsstring" where
  "trim s = rev (dropWhile is_white_space (rev (dropWhile is_white_space s)))"

text \<open>\<^verbatim>\<open>xs.join(sep)\<close> on an array of strings.\<close>

fun join :: "jsstring \<Rightarrow> jsstring list \<Rightarrow> jsstring" where
  "join sep [] = []"
| "join sep [x] = x"
| "join sep (x # y # ys) = x @ sep @ join sep (y # ys)"

text \<open>
  The parsed body of the request: \<open>message\<close> (the empty string also stands for a missing
  or otherwise falsy message) and \<open>conversationHistory\<close>, if there is one.
\<close>

record chat_body =
  body_message :: jsstring
  body_conversationHistory :: "Message list option"

text \<open>
  The outcome of \<^verbatim>\<open>zai.chat.completions.create\<close>: the call rejects (or the reply has no
  \<open>choices\<close> array, and reading it throws), or there is the value of
  \<^verbatim>\<open>completion.choices[0]?.message?.content\<close>, \<open>None\<close> when the chain ends in
  \<^verbatim>\<open>undefined\<close> or \<^verbatim>\<open>null\<close>.
\<close>

datatype completion = CompletionRejected | CompletionContent "jsstring option"

text \<open>
  What the route gets from outside: the outcome of \<^verbatim>\<open>request.json()\<close> (\<open>None\<close> when it
  rejects), whether \<^verbatim>\<open>ZAI.create()\<close> resolves, and the language model, a function of the
  system message and the user message sent to it.
\<close>

record chat_platform =
  request_json :: "chat_body option"
  zai_create :: bool
  completions_create :: "jsstring \<Rightarrow> jsstring \<Rightarrow> completion"

record chat_json =
  json_status :: nat
  json_success :: "bool option"
  json_response :: "jsstring option"
  json_error :: "jsstring option"

definition apology :: jsstring where
  "apology = lit ''Sorry, I'm having trouble responding right now. Could you please try again?''"

definition system_message :: jsstring where
  "system_message =
     lit ''You are a helpful English AI assistant. Respond naturally in English. Be conversational, friendly, and helpful. Keep responses concise but meaningful.''"

definition conversation_context :: "Message list option \<Rightarrow> jsstring" where
  "conversation_context history =
     (case history of
        Some msgs \<Rightarrow>
          join [0x000A]
            (map (\<lambda>msg. (if role msg = User then lit ''User'' else lit ''Assistant'') @
                         lit '': '' @ content msg) msgs)
      | None \<Rightarrow> [])"

definition systemPrompt :: "jsstring \<Rightarrow> jsstring \<Rightarrow> jsstring" where
  "systemPrompt context message =
     lit ''You are a helpful English AI assistant. You are having a conversation with a user who speaks English. '' @
     [0x000A] @
     lit ''Respond naturally in English, be friendly and helpful. Keep your responses conversational and not too long.'' @
     [0x000A, 0x000A] @
     (if context \<noteq> [] then lit ''Recent conversation:'' @ [0x000A] @ context else []) @
     [0x000A, 0x000A] @
     lit ''User: '' @ message @ [0x000A] @
     lit ''Assistant:''"

definition failed_500 :: chat_json where
  "failed_500 =
     \<lparr>json_status = 500, json_success = Some False, json_response = None,
      json_error = Some (lit ''Failed to process your message'')\<rparr>"

definition chat_POST :: "chat_platform \<Rightarrow> chat_json" where
  "chat_POST env =
     (case request_json env of
        None \<Rightarrow> failed_500
      | Some body \<Rightarrow>
          if body_message body = []
          then \<lparr>json_status = 400, json_success = None, json_response = None,
                json_error = Some (lit ''Message is required'')\<rparr>
          else if \<not> zai_create env then failed_500
          else
            (let context = conversation_context (body_conversationHistory body)
             in case completions_create env system_message
                       (systemPrompt context (body_message body)) of
                  CompletionRejected \<Rightarrow> failed_500
                | CompletionContent c \<Rightarrow>
                    (let response =
                           (case c of
                              Some text \<Rightarrow> if text \<noteq> [] then text else apology
                            | None \<Rightarrow> apology)
                     in \<lparr>json_status = 200, json_success = Some True,
                         json_response = Some (trim response), json_error = None\<rparr>)))"

text \<open>A platform whose language model answers every request with a single space.\<close>

definition blank_model :: chat_platform where
  "blank_model =
     \<lparr>request_json = Some \<lparr>body_message = lit ''hi'', body_conversationHistory = None\<rparr>,
      zai_create = True,
      completions_create = (\<lambda>system user. CompletionContent (Some (lit '' '')))\<rparr>"


section \<open>The browser as the audio classes see it\<close>

text \<open>
  The handlers and the \<open>cleanup\<close> methods act on the browser through calls whose effect
  outlives them: timers, animation frames, media tracks, audio contexts, recognition
  sessions, sockets.  The record keeps what is pending or live; handles are numbers, and
  \<^verbatim>\<open>setTimeout\<close>, \<^verbatim>\<open>setInterval\<close> and \<^verbatim>\<open>requestAnimationFrame\<close> hand out fresh
  positive ones.  A pending timeout is kept with its delay in milliseconds; the only
  timeouts that the handlers below set are their restart closures.  \<open>reported\<close> lists
  the messages passed to an \<open>onError\<close> callback, \<open>transcripts\<close> the calls of
  \<open>onTranscript\<close> and \<open>onSpeechResult\<close>.
\<close>

record browser =
  last_handle :: nat
  timeouts :: "(nat \<times> nat) list"
  intervals :: "nat list"
  frames :: "nat list"
  live_tracks :: "nat list"
  open_contexts :: "nat list"
  connected_nodes :: "nat list"
  open_sockets :: "nat list"
  active_recognitions :: "nat list"
  speaking :: bool
  reported :: "jsstring list"
  transcripts :: "(jsstring \<times> bool) list"

definition setTimeout :: "nat \<Rightarrow> browser \<Rightarrow> browser" where
  "setTimeout delay w =
     w\<lparr>last_handle := last_handle w + 1,
       timeouts := timeouts w @ [(last_handle w + 1, delay)]\<rparr>"

definition cancelAnimationFrame :: "nat \<Rightarrow> browser \<Rightarrow> browser" where
  "cancelAnimationFrame h w = w\<lparr>frames := removeAll h (frames w)\<rparr>"

definition clearInterval :: "nat \<Rightarrow> browser \<Rightarrow> browser" where
  "clearInterval h w = w\<lparr>intervals := removeAll h (intervals w)\<rparr>"

definition stop_tracks :: "nat list \<Rightarrow> browser \<Rightarrow> browser" where
  "stop_tracks tracks w = w\<lparr>live_tracks := filter (\<lambda>t. t \<notin> set tracks) (live_tracks w)\<rparr>"

text \<open>\<^verbatim>\<open>AudioContext.close()\<close>: the promise rejects when the context is not open.\<close>

definition close_context :: "nat \<Rightarrow> browser \<Rightarrow> browser option" where
  "close_context c w =
     (if c \<in> set (open_contexts w) then Some (w\<lparr>open_contexts := removeAll c (open_contexts w)\<rparr>)
      else None)"

definition recognition_start :: "nat \<Rightarrow> browser \<Rightarrow> browser" where
  "recognition_start r w =
     (if r \<in> set (active_recognitions w) then w
      else w\<lparr>active_recognitions := active_recognitions w @ [r]\<rparr>)"

definition recognition_stop :: "nat \<Rightarrow> browser \<Rightarrow> browser" where
  "recognition_stop r w = w\<lparr>active_recognitions := removeAll r (active_recognitions w)\<rparr>"

definition report :: "jsstring \<Rightarrow> browser \<Rightarrow> browser" where
  "report msg w = w\<lparr>reported := reported w @ [msg]\<rparr>"


text \<open>A handle is truthy when it is not 0.\<close>

definition truthy :: "nat option \<Rightarrow> bool" where
  "truthy h = (case h of None \<Rightarrow> False | Some n \<Rightarrow> n \<noteq> 0)"



section \<open>AudioProcessor (src/services/AudioProcessor.ts)\<close>

text \<open>
  The fields of the object.  A media stream is the list of its tracks.  Of
  \<open>eventHandlers\<close> the record keeps which callbacks are installed.
\<close>

record AudioProcessor =
  ap_audioContext :: "nat option"
  ap_mediaStream :: "nat list option"
  ap_analyser :: "nat option"
  ap_animationId :: "nat option"
  ap_onError :: bool
  ap_onSpeechResult :: bool
  ap_isListening :: bool
  ap_recognition :: "nat option"
  ap_synthesis :: bool
  ap_currentUtterance :: "nat option"

text \<open>
  \<^verbatim>\<open>this.recognition.start()\<close> inside \<^verbatim>\<open>try\<close>: with no recognition object the call
  throws and the \<^verbatim>\<open>catch\<close> logs it.
\<close>

definition ap_try_start :: "AudioProcessor \<Rightarrow> browser \<Rightarrow> browser" where
  "ap_try_start this w =
     (case ap_recognition this of None \<Rightarrow> w | Some r \<Rightarrow> recognition_start r w)"

text \<open>The closure that \<open>onerror\<close> hands to \<^verbatim>\<open>setTimeout\<close>, when timer \<open>h\<close> fires.\<close>

definition ap_restart_fires :: "nat \<Rightarrow> AudioProcessor \<times> browser \<Rightarrow> AudioProcessor \<times> browser" where
  "ap_restart_fires h state =
     (let this = fst state;
          w = (snd state)\<lparr>timeouts := filter (\<lambda>t. fst t \<noteq> h) (timeouts (snd state))\<rparr>
      in if ap_isListening this then (this, ap_try_start this w) else (this, w))"


definition ap_onerror ::
  "jsstring \<Rightarrow> AudioProcessor \<times> browser \<Rightarrow> AudioProcessor \<times> browser" where
  "ap_onerror e state =
     (let this = fst state;
          w = (if ap_onError this then report e (snd state) else snd state)
      in if e = lit ''no-speech'' \<and> ap_isListening this
         then (this, setTimeout 1000 w)
         else (this, w))"



text \<open>
  \<open>stopAudioMonitoring\<close> also calls the \<open>onAudioLevel\<close> callback with 0; the callback is the
  caller's code and is left out.
\<close>

definition ap_stopAudioMonitoring ::
  "AudioProcessor \<times> browser \<Rightarrow> AudioProcessor \<times> browser" where
  "ap_stopAudioMonitoring state =
     (let this = fst state; w = snd state
      in if truthy (ap_animationId this)
         then (this\<lparr>ap_animationId := None\<rparr>, cancelAnimationFrame (the (ap_animationId this)) w)
         else (this, w))"

definition ap_stopListening :: "AudioProcessor \<times> browser \<Rightarrow> AudioProcessor \<times> browser" where
  "ap_stopListening state =
     (let this = (fst state)\<lparr>ap_isListening := False\<rparr>;
          w = (case ap_recognition this of
                 None \<Rightarrow> snd state
               | Some r \<Rightarrow> recognition_stop r (snd state))
      in ap_stopAudioMonitoring (this, w))"

definition ap_stopSpeaking :: "AudioProcessor \<times> browser \<Rightarrow> AudioProcessor \<times> browser" where
  "ap_stopSpeaking state =
     (let this = fst state;
          w = (if ap_synthesis this \<and> speaking (snd state)
               then (snd state)\<lparr>speaking := False\<rparr> else snd state)
      in (this\<lparr>ap_currentUtterance := None\<rparr>, w))"

text \<open>
  \<open>cleanup\<close>.  The promise of \<^verbatim>\<open>this.audioContext.close()\<close> is not awaited: when it
  rejects, the browser is as before and \<open>cleanup\<close> goes on.
\<close>

definition ap_cleanup :: "AudioProcessor \<times> browser \<Rightarrow> AudioProcessor \<times> browser" where
  "ap_cleanup state =
     (let s1 = ap_stopSpeaking (ap_stopListening state);
          this1 = fst s1; w1 = snd s1;
          s2 = (case ap_mediaStream this1 of
                  None \<Rightarrow> (this1, w1)
                | Some tracks \<Rightarrow> (this1\<lparr>ap_mediaStream := None\<rparr>, stop_tracks tracks w1));
          this2 = fst s2; w2 = snd s2;
          s3 = (case ap_audioContext this2 of
                  None \<Rightarrow> (this2, w2)
                | Some c \<Rightarrow>
                    (this2\<lparr>ap_audioContext := None\<rparr>,
                     (case close_context c w2 of None \<Rightarrow> w2 | Some w3 \<Rightarrow> w3)))
      in ((fst s3)\<lparr>ap_analyser := None, ap_recognition := None\<rparr>, snd s3))"


section \<open>RealTimeAudioProcessor (src/lib/real-time-audio.ts)\<close>

record RealTimeAudioProcessor =
  rt_ws :: "nat option"
  rt_audioContext :: "nat option"
  rt_mediaStream :: "nat list option"
  rt_processor :: "nat option"
  rt_isRecording :: bool
  rt_audioBuffer :: "rat list list"
  rt_processingInterval :: "nat option"

definition rt_close_socket ::
  "RealTimeAudioProcessor \<times> browser \<Rightarrow> RealTimeAudioProcessor \<times> browser" where
  "rt_close_socket state =
     (case rt_ws (fst state) of
        None \<Rightarrow> state
      | Some s \<Rightarrow>
          ((fst state)\<lparr>rt_ws := None\<rparr>,
           (snd state)\<lparr>open_sockets := removeAll s (open_sockets (snd state))\<rparr>))"

text \<open>
  \<open>cleanup\<close> is asynchronous and awaits \<^verbatim>\<open>this.audioContext.close()\<close>: when that rejects,
  \<open>cleanup\<close> rejects there, with the assignments made so far.  The result says whether
  \<open>cleanup\<close> completed, and gives the object and the browser it leaves.
\<close>

definition rt_cleanup ::
  "RealTimeAudioProcessor \<times> browser \<Rightarrow> bool \<times> RealTimeAudioProcessor \<times> browser" where
  "rt_cleanup state =
     (let this0 = (fst state)\<lparr>rt_isRecording := False\<rparr>; w0 = snd state;
          s1 = (if truthy (rt_processingInterval this0)
                then (this0\<lparr>rt_processingInterval := None\<rparr>,
                      clearInterval (the (rt_processingInterval this0)) w0)
                else (this0, w0));
          s2 = (case rt_processor (fst s1) of
                  None \<Rightarrow> s1
                | Some p \<Rightarrow>
                    ((fst s1)\<lparr>rt_processor := None\<rparr>,
                     (snd s1)\<lparr>connected_nodes := removeAll p (connected_nodes (snd s1))\<rparr>));
          s3 = (case rt_mediaStream (fst s2) of
                  None \<Rightarrow> s2
                | Some tracks \<Rightarrow> ((fst s2)\<lparr>rt_mediaStream := None\<rparr>, stop_tracks tracks (snd s2)))
      in case rt_audioContext (fst s3) of
           None \<Rightarrow> (True, rt_close_socket s3)
         | Some c \<Rightarrow>
             (case close_context c (snd s3) of
                None \<Rightarrow> (False, s3)
              | Some w4 \<Rightarrow> (True, rt_close_socket ((fst s3)\<lparr>rt_audioContext := None\<rparr>, w4))))"


section \<open>WebSpeechProcessor (a React component, src/unnamed/part_003)\<close>











text \<open>Objects and a browser to run the handlers on.\<close>

definition fresh_browser :: browser where
  "fresh_browser =
     \<lparr>last_handle = 0, timeouts = [], intervals = [], frames = [], live_tracks = [],
      open_contexts = [], connected_nodes = [], open_sockets = [], active_recognitions = [],
      speaking = False, reported = [], transcripts = []\<rparr>"


text \<open>
  An \<open>AudioProcessor\<close> that is listening: context 1, a stream with track 2, analyser 3,
  recognition 4, and animation frame 5 requested by the level monitor.
\<close>

definition listening_processor :: AudioProcessor where
  "listening_processor =
     \<lparr>ap_audioContext = Some 1, ap_mediaStream = Some [2], ap_analyser = Some 3,
      ap_animationId = Some 5, ap_onError = True, ap_onSpeechResult = True,
      ap_isListening = True, ap_recognition = Some 4, ap_synthesis = True,
      ap_currentUtterance = None\<rparr>"

definition listening_browser :: browser where
  "listening_browser =
     fresh_browser\<lparr>last_handle := 5, frames := [5], live_tracks := [2], open_contexts := [1],
       active_recognitions := [4]\<rparr>"

text \<open>
  A \<open>RealTimeAudioProcessor\<close> that is recording: context 1, a stream with track 2,
  script processor 3 and processing interval 4.
\<close>

definition recording_processor :: RealTimeAudioProcessor where
  "recording_processor =
     \<lparr>rt_ws = None, rt_audioContext = Some 1, rt_mediaStream = Some [2],
      rt_processor = Some 3, rt_isRecording = True, rt_audioBuffer = [],
      rt_processingInterval = Some 4\<rparr>"

definition recording_browser :: browser where
  "recording_browser =
     fresh_browser\<lparr>last_handle := 4, intervals := [4], live_tracks := [2], open_contexts := [1],
       connected_nodes := [3]\<rparr>"


section \<open>The text-to-speech route (src/app/api/text-to-speech/route.ts)\<close>

subsection \<open>ArrayBuffer and DataView\<close>

text \<open>
  An \<^verbatim>\<open>ArrayBuffer\<close> is a list of bytes, all 0 when it is made.  The setters of a
  \<^verbatim>\<open>DataView\<close> throw a \<^verbatim>\<open>RangeError\<close> when the bytes to write do not lie inside the
  buffer: \<open>None\<close>.  They take the number to write modulo \<open>2 ^ 8\<close>, \<open>2 ^ 16\<close> or
  \<open>2 ^ 32\<close>; the route calls the multi-byte setters with \<^verbatim>\<open>littleEndian = true\<close>.
\<close>

definition le_byte :: "nat \<Rightarrow> nat \<Rightarrow> byte" where
  "le_byte k v = of_nat ((v div 256 ^ k) mod 256)"

definition setUint8 :: "byte list \<Rightarrow> nat \<Rightarrow> nat \<Rightarrow> byte list option" where
  "setUint8 view byteOffset v =
     (if byteOffset + 1 \<le> length view then Some (view[byteOffset := le_byte 0 v]) else None)"

definition setUint16 :: "byte list \<Rightarrow> nat \<Rightarrow> nat \<Rightarrow> byte list option" where
  "setUint16 view byteOffset v =
     (if byteOffset + 2 \<le> length view
      then Some (view[byteOffset := le_byte 0 v, byteOffset + 1 := le_byte 1 v])
      else None)"

definition setUint32 :: "byte list \<Rightarrow> nat \<Rightarrow> nat \<Rightarrow> byte list option" where
  "setUint32 view byteOffset v =
     (if byteOffset + 4 \<le> length view
      then Some (view[byteOffset := le_byte 0 v, byteOffset + 1 := le_byte 1 v,
                      byteOffset + 2 := le_byte 2 v, byteOffset + 3 := le_byte 3 v])
      else None)"

text \<open>
  \<^verbatim>\<open>setInt16\<close> of a number: the 16 bits that the conversion of the number leaves are
  given as a word.
\<close>

definition setInt16 :: "byte list \<Rightarrow> nat \<Rightarrow> 16 word \<Rightarrow> byte list option" where
  "setInt16 view byteOffset v =
     (if byteOffset + 2 \<le> length view
      then Some (view[byteOffset := le_byte 0 (unat v), byteOffset + 1 := le_byte 1 (unat v)])
      else None)"

text \<open>The local function \<open>writeString\<close>: one \<^verbatim>\<open>setUint8\<close> for each code unit.\<close>

fun writeString :: "byte list \<Rightarrow> nat \<Rightarrow> jsstring \<Rightarrow> byte list option" where
  "writeString view offset [] = Some view"
| "writeString view offset (c # cs) =
     (case setUint8 view offset (unat c) of
        None \<Rightarrow> None
      | Some view' \<Rightarrow> writeString view' (offset + 1) cs)"

text \<open>Reading a buffer back, little-endian.\<close>

definition getUint16 :: "byte list \<Rightarrow> nat \<Rightarrow> nat" where
  "getUint16 view byteOffset = unat (view ! byteOffset) + 256 * unat (view ! (byteOffset + 1))"

definition getUint32 :: "byte list \<Rightarrow> nat \<Rightarrow> nat" where
  "getUint32 view byteOffset =
     unat (view ! byteOffset) + 256 * unat (view ! (byteOffset + 1)) +
     65536 * unat (view ! (byteOffset + 2)) + 16777216 * unat (view ! (byteOffset + 3))"

definition getString :: "byte list \<Rightarrow> nat \<Rightarrow> nat \<Rightarrow> jsstring" where
  "getString view byteOffset n = map (\<lambda>i. ucast (view ! (byteOffset + i))) [0..<n]"

subsection \<open>Base64\<close>

text \<open>
  \<^verbatim>\<open>btoa\<close> encodes a string of code units below 256 in Base64 (RFC 4648, with padding)
  and throws on any other string.  \<open>base64_decode\<close> is the decoding of RFC 4648.
\<close>

definition base64_code :: "nat \<Rightarrow> nat" where
  "base64_code n =
     (if n < 26 then 65 + n
      else if n < 52 then 97 + (n - 26)
      else if n < 62 then 48 + (n - 52)
      else if n = 62 then 43 else 47)"

definition base64_char :: "nat \<Rightarrow> 16 word" where
  "base64_char n = of_nat (base64_code n)"

definition base64_pad :: "16 word" where
  "base64_pad = 61"

fun base64_encode :: "nat list \<Rightarrow> jsstring" where
  "base64_encode [] = []"
| "base64_encode [a] =
     [base64_char (a div 4), base64_char ((a mod 4) * 16), base64_pad, base64_pad]"
| "base64_encode [a, b] =
     [base64_char (a div 4), base64_char ((a mod 4) * 16 + b div 16),
      base64_char ((b mod 16) * 4), base64_pad]"
| "base64_encode (a # b # c # rest) =
     [base64_char (a div 4), base64_char ((a mod 4) * 16 + b div 16),
      base64_char ((b mod 16) * 4 + c div 64), base64_char (c mod 64)] @ base64_encode rest"

definition btoa :: "jsstring \<Rightarrow> jsstring option" where
  "btoa binary =
     (if list_all (\<lambda>c. c \<le> 255) binary then Some (base64_encode (map unat binary)) else None)"

definition base64_value :: "16 word \<Rightarrow> nat option" where
  "base64_value c =
     (let n = unat c
      in if 65 \<le> n \<and> n \<le> 90 then Some (n - 65)
         else if 97 \<le> n \<and> n \<le> 122 then Some (n - 97 + 26)
         else if 48 \<le> n \<and> n \<le> 57 then Some (n - 48 + 52)
         else if n = 43 then Some 62
         else if n = 47 then Some 63
         else None)"

fun base64_decode :: "jsstring \<Rightarrow> byte list option" where
  "base64_decode [] = Some []"
| "base64_decode (c0 # c1 # c2 # c3 # rest) =
     (case (base64_value c0, base64_value c1) of
        (Some s0, Some s1) \<Rightarrow>
          if c2 = base64_pad \<and> c3 = base64_pad \<and> rest = []
          then (if s1 mod 16 = 0 then Some [of_nat (s0 * 4 + s1 div 16)] else None)
          else
            (case base64_value c2 of
               None \<Rightarrow> None
             | Some s2 \<Rightarrow>
                 if c3 = base64_pad \<and> rest = []
                 then (if s2 mod 4 = 0
                       then Some [of_nat (s0 * 4 + s1 div 16),
                                  of_nat ((s1 mod 16) * 16 + s2 div 4)]
                       else None)
                 else
                   (case (base64_value c3, base64_decode rest) of
                      (Some s3, Some bytes) \<Rightarrow>
                        Some (of_nat (s0 * 4 + s1 div 16) #
                              of_nat ((s1 mod 16) * 16 + s2 div 4) #
                              of_nat ((s2 mod 4) * 64 + s3) # bytes)
                    | _ \<Rightarrow> None))
      | _ \<Rightarrow> None)"
| "base64_decode _ = None"

subsection \<open>The two synthesizers\<close>

text \<open>
  The lines that both synthesizers share: the WAV header written into a fresh buffer of
  \<open>44 + samples * 2\<close> bytes, the loop that stores one 16-bit sample at \<open>offset\<close> and
  moves \<open>offset\<close> on by 2, and the conversion of the bytes to a binary string and to
  Base64.  The value of a sample comes from \<^verbatim>\<open>Math.sin\<close> and \<^verbatim>\<open>Math.random\<close>; \<open>pcm i\<close>
  stands for the 16 bits that \<^verbatim>\<open>setInt16\<close> stores for sample \<open>i\<close>.
\<close>

definition sampleRate :: nat where
  "sampleRate = 22050"

definition write_header :: "byte list \<Rightarrow> nat \<Rightarrow> byte list option" where
  "write_header view samples =
     do {
       view \<leftarrow> writeString view 0 (lit ''RIFF'');
       view \<leftarrow> setUint32 view 4 (36 + samples * 2);
       view \<leftarrow> writeString view 8 (lit ''WAVE'');
       view \<leftarrow> writeString view 12 (lit ''fmt '');
       view \<leftarrow> setUint32 view 16 16;
       view \<leftarrow> setUint16 view 20 1;
       view \<leftarrow> setUint16 view 22 1;
       view \<leftarrow> setUint32 view 24 sampleRate;
       view \<leftarrow> setUint32 view 28 (sampleRate * 2);
       view \<leftarrow> setUint16 view 32 2;
       view \<leftarrow> setUint16 view 34 16;
       view \<leftarrow> writeString view 36 (lit ''data'');
       setUint32 view 40 (samples * 2)
     }"

fun write_samples :: "(nat \<Rightarrow> 16 word) \<Rightarrow> nat list \<Rightarrow> nat \<Rightarrow> byte list \<Rightarrow> byte list option" where
  "write_samples pcm [] offset view = Some view"
| "write_samples pcm (i # rest) offset view =
     (case setInt16 view offset (pcm i) of
        None \<Rightarrow> None
      | Some view' \<Rightarrow> write_samples pcm rest (offset + 2) view')"

definition wav_bytes :: "nat \<Rightarrow> (nat \<Rightarrow> 16 word) \<Rightarrow> byte list option" where
  "wav_bytes samples pcm =
     do {
       view \<leftarrow> write_header (replicate (44 + samples * 2) 0) samples;
       write_samples pcm [0..<samples] 44 view
     }"

definition to_base64 :: "byte list \<Rightarrow> jsstring option" where
  "to_base64 bytes = btoa (map ucast bytes)"

text \<open>
  \<open>samples\<close> is \<^verbatim>\<open>Math.floor(sampleRate * Math.min(text.length * 0.07, 3))\<close>, computed
  in doubles; the literal \<^verbatim>\<open>0.07\<close> is the double nearest to 7/100.
\<close>

definition web_speech_samples :: "nat \<Rightarrow> int" where
  "web_speech_samples text_length =
     (let duration = min (fl (of_nat text_length * fl (7 / 100))) 3
      in \<lfloor>fl (of_nat sampleRate * duration)\<rfloor>)"

definition natural_speech_samples :: "nat \<Rightarrow> int" where
  "natural_speech_samples text_length =
     (let duration = min (fl (of_nat text_length * fl (8 / 100))) 4
      in \<lfloor>fl (of_nat sampleRate * duration)\<rfloor>)"

text \<open>
  With a negative number of samples the buffer would be shorter than the header, or
  \<^verbatim>\<open>new ArrayBuffer\<close> would be given a negative length: both throw a \<^verbatim>\<open>RangeError\<close>.
\<close>

definition generateAudioWithWebSpeechAPI :: "(nat \<Rightarrow> 16 word) \<Rightarrow> jsstring \<Rightarrow> jsstring option" where
  "generateAudioWithWebSpeechAPI pcm text =
     (let samples = web_speech_samples (length text)
      in if samples < 0 then None
         else do {
           bytes \<leftarrow> wav_bytes (nat samples) pcm;
           to_base64 bytes
         })"

definition generateNaturalSpeechAudio :: "(nat \<Rightarrow> 16 word) \<Rightarrow> jsstring \<Rightarrow> jsstring option" where
  "generateNaturalSpeechAudio pcm text =
     (let samples = natural_speech_samples (length text)
      in if samples < 0 then None
         else do {
           bytes \<leftarrow> wav_bytes (nat samples) pcm;
           to_base64 bytes
         })"

subsection \<open>POST\<close>

text \<open>
  The body of the request, if \<^verbatim>\<open>request.json()\<close> gives one: \<open>text\<close> (the empty string
  also stands for a missing text) and \<open>urduType\<close>.  Of the success reply the record
  keeps \<open>audioBase64\<close>, \<open>text\<close> and \<open>method\<close>; \<open>audioUrl\<close>, made from the clock, and
  \<open>urduText\<close>, the result of \<open>convertRomanToUrdu\<close> (a chain of \<^verbatim>\<open>String.replace\<close> calls
  that cannot throw), are left out.
\<close>

record tts_body =
  tts_text :: jsstring
  tts_urduType :: jsstring

datatype tts_response =
    Synthesized jsstring jsstring jsstring
  | TtsFailed nat jsstring

record tts_platform =
  tts_request_json :: "tts_body option"
  web_speech_pcm :: "nat \<Rightarrow> 16 word"
  natural_speech_pcm :: "nat \<Rightarrow> 16 word"

definition tts_POST :: "tts_platform \<Rightarrow> tts_response" where
  "tts_POST env =
     (case tts_request_json env of
        None \<Rightarrow> TtsFailed 500 (lit ''Failed to process text-to-speech'')
      | Some body \<Rightarrow>
          if tts_text body = [] then TtsFailed 400 (lit ''No text provided'')
          else
            (case generateAudioWithWebSpeechAPI (web_speech_pcm env) (tts_text body) of
               Some audioBase64 \<Rightarrow>
                 Synthesized audioBase64 (tts_text body) (lit ''web_speech_api'')
             | None \<Rightarrow>
                 (case generateNaturalSpeechAudio (natural_speech_pcm env) (tts_text body) of
                    Some audioBase64 \<Rightarrow>
                      Synthesized audioBase64 (tts_text body) (lit ''enhanced_simulated'')
                  | None \<Rightarrow> TtsFailed 500 (lit ''Failed to process text-to-speech''))))"

text \<open>The buffer after the header has been written into it.\<close>

definition header_written :: "byte list \<Rightarrow> nat \<Rightarrow> byte list" where
  "header_written view samples =
     view[0 := 82, 1 := 73, 2 := 70, 3 := 70,
          4 := le_byte 0 (36 + samples * 2), 5 := le_byte 1 (36 + samples * 2),
          6 := le_byte 2 (36 + samples * 2), 7 := le_byte 3 (36 + samples * 2),
          8 := 87, 9 := 65, 10 := 86, 11 := 69,
          12 := 102, 13 := 109, 14 := 116, 15 := 32,
          16 := 16, 17 := 0, 18 := 0, 19 := 0,
          20 := 1, 21 := 0,
          22 := 1, 23 := 0,
          24 := 34, 25 := 86, 26 := 0, 27 := 0,
          28 := 68, 29 := 172, 30 := 0, 31 := 0,
          32 := 2, 33 := 0,
          34 := 16, 35 := 0,
          36 := 100, 37 := 97, 38 := 116, 39 := 97,
          40 := le_byte 0 (samples * 2), 41 := le_byte 1 (samples * 2),
          42 := le_byte 2 (samples * 2), 43 := le_byte 3 (samples * 2)]"

text \<open>The number of samples as claim C4 gives it, in exact arithmetic.\<close>

definition claimed_samples :: "nat \<Rightarrow> int" where
  "claimed_samples text_length = \<lfloor>22050 * min (7 / 100 * of_nat text_length) (3 :: rat)\<rfloor>"

text \<open>A request for the text \<open>hi\<close>, with all samples 0.\<close>

definition silent_request :: tts_platform where
  "silent_request =
     \<lparr>tts_request_json = Some \<lparr>tts_text = lit ''hi'', tts_urduType = lit ''roman''\<rparr>,
      web_speech_pcm = (\<lambda>i. 0), natural_speech_pcm = (\<lambda>i. 0)\<rparr>"

section \<open>Facts about rounding\<close>

lemma bitlen_numeral:
  "bitlen (numeral n) = bitlen (numeral n div 2) + 1" "bitlen 1 = 1"
  by (subst compute_bitlen, simp)+

lemma floor_rat_numeral:
  "\<lfloor>numeral a / numeral b :: rat\<rfloor> = numeral a div numeral b"
  "\<lfloor>1 / numeral b :: rat\<rfloor> = 1 div numeral b"
  by (metis floor_divide_of_int_eq of_int_numeral of_int_1)+

lemma ceiling_rat_numeral:
  "\<lceil>numeral a / numeral b :: rat\<rceil> = - (- numeral a div numeral b)"
  "\<lceil>1 / numeral b :: rat\<rceil> = - (- 1 div numeral b)"
  unfolding ceiling_def
  by (metis divide_minus_left floor_divide_of_int_eq of_int_neg_numeral of_int_numeral of_int_1 of_int_minus)+

lemmas fl_eval = fl_def ulp_def round_half_even_def Let_def bitlen_numeral
  floor_rat_numeral ceiling_rat_numeral

lemma round_half_even_ge: "of_int n \<le> r \<Longrightarrow> n \<le> round_half_even r"
  unfolding round_half_even_def Let_def by (auto simp: le_floor_iff) linarith+

lemma round_half_even_le: "r \<le> of_int n \<Longrightarrow> round_half_even r \<le> n"
  unfolding round_half_even_def Let_def
  by (auto simp: floor_le_iff)

lemma round_half_even_less: "r < of_int n - 1 / 2 \<Longrightarrow> round_half_even r < n"
  unfolding round_half_even_def Let_def
  by (auto simp: floor_less_iff)

lemma ulp_pos: "0 < ulp x"
  unfolding ulp_def Let_def by simp



lemma ulp_ge_1:
  assumes "1 \<le> x"
  obtains k where "ulp x = 2 ^ k / 2 ^ 52" "2 ^ k \<le> x" "x < 2 ^ (k + 1)"
proof -
  define k where "k = nat (bitlen \<lfloor>x\<rfloor> - 1)"
  have fx: "0 < \<lfloor>x\<rfloor>" using assms by simp
  have b: "1 \<le> bitlen \<lfloor>x\<rfloor>"
    using fx bitlen_eq_zero_iff [of "\<lfloor>x\<rfloor>"] bitlen_nonneg [of "\<lfloor>x\<rfloor>"] by linarith
  from bitlen_bounds [OF fx]
  have lo: "2 ^ k \<le> \<lfloor>x\<rfloor>" and hi: "\<lfloor>x\<rfloor> < 2 ^ nat (bitlen \<lfloor>x\<rfloor>)"
    by (simp_all add: k_def)
  have "nat (bitlen \<lfloor>x\<rfloor>) = k + 1" using b by (simp add: k_def)
  with hi have hi': "\<lfloor>x\<rfloor> < 2 ^ (k + 1)" by simp
  have 1: "ulp x = 2 ^ k / 2 ^ 52"
    using assms by (simp add: ulp_def k_def)
  have "(of_int (2 ^ k) :: rat) \<le> of_int \<lfloor>x\<rfloor>" using lo by (simp only: of_int_le_iff)
  also have "\<dots> \<le> x" by simp
  finally have 2: "2 ^ k \<le> x" by simp
  have "x < of_int (2 ^ (k + 1))" using hi' by (simp only: floor_less_iff)
  then have 3: "x < 2 ^ (k + 1)" by simp
  from 1 2 3 show thesis by (rule that)
qed

lemma ulp_less_1:
  assumes "0 \<le> x" "x < 1"
  obtains m where "ulp x = 1 / 2 ^ m" "52 \<le> m"
proof -
  define j where "j = nat (bitlen (\<lceil>1 / \<bar>x\<bar>\<rceil> - 1))"
  have "\<not> 1 \<le> \<bar>x\<bar>" using assms by simp
  then have eq: "ulp x =
      (if \<bar>x\<bar> = 0 then 1 / 2 ^ 1074
       else if 1022 < j then 1 / 2 ^ 1074 else 1 / 2 ^ (j + 52))"
    unfolding ulp_def Let_def j_def by (simp only: if_False)
  consider "\<bar>x\<bar> = 0 \<or> 1022 < j" | "\<bar>x\<bar> \<noteq> 0" "\<not> 1022 < j" by blast
  then show thesis
  proof cases
    case 1
    then have "ulp x = 1 / 2 ^ 1074" by (subst eq) (auto simp only: if_True if_False if_cancel refl)
    then show thesis by (rule that) simp
  next
    case 2
    then have "ulp x = 1 / 2 ^ (j + 52)" by (subst eq) (simp only: if_False)
    then show thesis by (rule that) simp
  qed
qed

lemma fl_le_1:
  assumes "0 \<le> x" "x < 1"
  shows "fl x \<le> 1"
proof -
  obtain m where u: "ulp x = 1 / 2 ^ m" using assms by (rule ulp_less_1)
  have "x / ulp x = x * 2 ^ m" by (simp add: u)
  also have "\<dots> \<le> of_int (2 ^ m)" using assms by simp
  finally have "round_half_even (x / ulp x) \<le> 2 ^ m" by (rule round_half_even_le)
  then have "(of_int (round_half_even (x / ulp x)) :: rat) \<le> of_int (2 ^ m)"
    by (simp only: of_int_le_iff)
  then have "of_int (round_half_even (x / ulp x)) * (1 / 2 ^ m) \<le> (of_int (2 ^ m) :: rat) * (1 / 2 ^ m)"
    by (intro mult_right_mono) simp_all
  then show ?thesis by (simp add: fl_def u)
qed


lemma fl_ge_int:
  assumes "1 \<le> m" "of_int m \<le> x" "m \<le> 2 ^ 53"
  shows "of_int m \<le> fl x"
proof -
  have "(1 :: rat) \<le> of_int m" using assms(1) by simp
  with assms(2) have "1 \<le> x" by linarith
  then obtain k where u: "ulp x = 2 ^ k / 2 ^ 52" and lo: "2 ^ k \<le> x" and hi: "x < 2 ^ (k + 1)"
    by (rule ulp_ge_1)
  show ?thesis
  proof (cases "k \<le> 52")
    case True
    then have u': "ulp x = 1 / 2 ^ (52 - k)"
      by (simp add: u power_diff)
    have "(of_int (m * 2 ^ (52 - k)) :: rat) = of_int m / ulp x" by (simp add: u')
    also have "\<dots> \<le> x / ulp x" using assms(2) ulp_pos [of x] by (simp add: divide_right_mono)
    finally have "m * 2 ^ (52 - k) \<le> round_half_even (x / ulp x)" by (rule round_half_even_ge)
    then have "(of_int (m * 2 ^ (52 - k)) :: rat) \<le> of_int (round_half_even (x / ulp x))"
      by (simp only: of_int_le_iff)
    then have "(of_int (m * 2 ^ (52 - k)) :: rat) * (1 / 2 ^ (52 - k))
        \<le> of_int (round_half_even (x / ulp x)) * (1 / 2 ^ (52 - k))"
      by (intro mult_right_mono) simp_all
    then show ?thesis by (simp add: fl_def u')
  next
    case False
    then have u': "ulp x = 2 ^ (k - 52)"
      by (simp add: u power_diff)
    have "(of_int (2 ^ 52) :: rat) = 2 ^ k / ulp x" using False by (simp add: u' power_diff)
    also have "\<dots> \<le> x / ulp x" using lo ulp_pos [of x] by (simp add: divide_right_mono)
    finally have "2 ^ 52 \<le> round_half_even (x / ulp x)" by (rule round_half_even_ge)
    then have "(of_int (2 ^ 52) :: rat) \<le> of_int (round_half_even (x / ulp x))"
      by (simp only: of_int_le_iff)
    then have "(of_int (2 ^ 52) :: rat) * 2 ^ (k - 52)
        \<le> of_int (round_half_even (x / ulp x)) * 2 ^ (k - 52)"
      by (intro mult_right_mono) simp_all
    moreover have "(of_int m :: rat) \<le> of_int (2 ^ 52) * 2 ^ (k - 52)"
    proof -
      have a: "(2 :: rat) \<le> 2 ^ (k - 52)"
        using False power_increasing [of 1 "k - 52" "2 :: rat"] by simp
      have "(of_int m :: rat) \<le> of_int (2 ^ 53)" using assms(3) by (simp only: of_int_le_iff)
      also have "\<dots> = 4503599627370496 * 2" by simp
      also have "\<dots> \<le> 4503599627370496 * 2 ^ (k - 52)"
        using a by (rule mult_left_mono) simp
      finally show ?thesis by simp
    qed
    ultimately have "of_int m \<le> of_int (round_half_even (x / ulp x)) * (2 ^ (k - 52) :: rat)"
      by (rule order_trans [rotated])
    then show ?thesis by (simp only: fl_def u')
  qed
qed

lemma fl_ge_1: "1 \<le> x \<Longrightarrow> 1 \<le> fl x"
  using fl_ge_int [of 1 x] by simp

lemma fl_ge_2: "2 \<le> x \<Longrightarrow> 2 \<le> fl x"
  using fl_ge_int [of 2 x] by simp

lemma fl_ge_3: "3 \<le> x \<Longrightarrow> 3 \<le> fl x"
  using fl_ge_int [of 3 x] by simp

lemma fl_less_3:
  assumes "0 \<le> x" "x < 3 - 1 / 2 ^ 52"
  shows "fl x < 3"
proof -
  consider "x < 1" | "1 \<le> x" "x < 2" | "2 \<le> x" by linarith
  then show ?thesis
  proof cases
    case 1
    with assms have "fl x \<le> 1" by (intro fl_le_1)
    then show ?thesis by simp
  next
    case 2
    then have "\<lfloor>x\<rfloor> = 1" by (simp add: floor_eq_iff)
    with 2 have u: "ulp x = 1 / 2 ^ 52" by (simp add: ulp_def bitlen_numeral)
    have "x / ulp x \<le> of_int (2 ^ 53)" using 2 by (simp add: u)
    then have "round_half_even (x / ulp x) \<le> 2 ^ 53" by (rule round_half_even_le)
    then have "(of_int (round_half_even (x / ulp x)) :: rat) \<le> of_int (2 ^ 53)"
      by (simp only: of_int_le_iff)
    then have "fl x \<le> 2" by (simp add: fl_def u)
    then show ?thesis by simp
  next
    case 3
    with assms have "\<lfloor>x\<rfloor> = 2" by (simp add: floor_eq_iff)
    with 3 have u: "ulp x = 1 / 2 ^ 51" by (simp add: ulp_def bitlen_numeral)
    have "x / ulp x < of_int (3 * 2 ^ 51) - 1 / 2" using assms by (simp add: u)
    then have "round_half_even (x / ulp x) < 3 * 2 ^ 51" by (rule round_half_even_less)
    then have "(of_int (round_half_even (x / ulp x)) :: rat) < of_int (3 * 2 ^ 51)"
      by (simp only: of_int_less_iff)
    then show ?thesis by (simp add: fl_def u)
  qed
qed

lemma fl_less_1:
  assumes "0 \<le> x" "x \<le> 1 - 1 / 2 ^ 52"
  shows "fl x < 1"
proof -
  have x1: "x < 1" using assms(2) by simp
  with assms(1) obtain m where u: "ulp x = 1 / 2 ^ m" and m: "52 \<le> m" by (rule ulp_less_1)
  have "(1 :: rat) = 2 ^ 0" by simp
  also have "\<dots> \<le> 2 ^ (m - 52)" by (rule power_increasing) simp_all
  finally have "(1 :: rat) \<le> 2 ^ m / 2 ^ 52" using m by (simp add: power_diff)
  then have "x * 2 ^ m < 2 ^ m - 1 / 2"
  proof -
    assume a: "(1 :: rat) \<le> 2 ^ m / 2 ^ 52"
    have "x * 2 ^ m \<le> (1 - 1 / 2 ^ 52) * 2 ^ m"
      using assms(2) by (rule mult_right_mono) simp
    also have "\<dots> = 2 ^ m - 2 ^ m / 2 ^ 52" by (simp add: algebra_simps)
    also have "\<dots> < 2 ^ m - 1 / 2" using a by simp
    finally show ?thesis .
  qed
  then have "x / ulp x < of_int (2 ^ m) - 1 / 2" by (simp add: u)
  then have "round_half_even (x / ulp x) < 2 ^ m" by (rule round_half_even_less)
  then have "(of_int (round_half_even (x / ulp x)) :: rat) < of_int (2 ^ m)"
    by (simp only: of_int_less_iff)
  then have "of_int (round_half_even (x / ulp x)) * (1 / 2 ^ m) < (of_int (2 ^ m) :: rat) * (1 / 2 ^ m)"
    by (intro mult_strict_right_mono) simp_all
  then show ?thesis by (simp add: fl_def u)
qed

lemma fl_less_2:
  assumes "0 \<le> x" "x \<le> 2 - 1 / 2 ^ 51"
  shows "fl x < 2"
proof (cases "x < 1")
  case True
  with assms have "fl x \<le> 1" by (intro fl_le_1)
  then show ?thesis by simp
next
  case False
  with assms have "\<lfloor>x\<rfloor> = 1" by (simp add: floor_eq_iff)
  with False have u: "ulp x = 1 / 2 ^ 52" by (simp add: ulp_def bitlen_numeral)
  have "x / ulp x < of_int (2 ^ 53) - 1 / 2" using assms(2) by (simp add: u)
  then have "round_half_even (x / ulp x) < 2 ^ 53" by (rule round_half_even_less)
  then have "(of_int (round_half_even (x / ulp x)) :: rat) < of_int (2 ^ 53)"
    by (simp only: of_int_less_iff)
  then show ?thesis by (simp add: fl_def u)
qed



section \<open>The language model service: history and requests\<close>

lemma slice_from_last_6: "slice_from (- 6) xs = drop (length xs - 6) xs"
  by (auto simp: slice_from_def Let_def max_def nat_diff_distrib')

lemma conversationHistory_push:
  "conversationHistory (push this m) = conversationHistory this @ [m]"
  by (simp add: push_def)

lemma processUrduText_history:
  "\<exists>new. conversationHistory (snd (processUrduText env this userInput)) =
           conversationHistory this @ new \<and> 1 \<le> length new \<and> length new \<le> 2"
  by (auto simp: processUrduText_def Let_def conversationHistory_push split: sum.splits)

lemma process_all_history:
  "\<exists>new. conversationHistory (process_all calls this) = conversationHistory this @ new \<and>
         length calls \<le> length new \<and> length new \<le> 2 * length calls"
proof (induction calls arbitrary: this)
  case Nil
  then show ?case by simp
next
  case (Cons c calls)
  obtain env userInput where c: "c = (env, userInput)" by (cases c)
  obtain new1 where 1:
    "conversationHistory (snd (processUrduText env this userInput)) = conversationHistory this @ new1"
    "1 \<le> length new1" "length new1 \<le> 2"
    using processUrduText_history by blast
  obtain new2 where 2:
    "conversationHistory (process_all calls (snd (processUrduText env this userInput))) =
       conversationHistory (snd (processUrduText env this userInput)) @ new2"
    "length calls \<le> length new2" "length new2 \<le> 2 * length calls"
    using Cons.IH by blast
  show ?case
    by (rule exI [of _ "new1 @ new2"]) (use 1 2 in \<open>simp add: c\<close>)
qed

text \<open>
  Claim C3.  The body of the request that \<open>callChatAPI\<close> sends holds the message and the
  last 6 records of the stored history, all of them when there are fewer, in their
  stored order; the outcome of the call depends on the network only through the answer
  to this body.
\<close>

theorem callChatAPI_sends_last_six:
  "req_message (chat_request_body this message) = message \<and>
   req_conversationHistory (chat_request_body this message) =
     drop (length (conversationHistory this) - 6) (conversationHistory this) \<and>
   length (req_conversationHistory (chat_request_body this message)) =
     min 6 (length (conversationHistory this)) \<and>
   suffix (req_conversationHistory (chat_request_body this message)) (conversationHistory this) \<and>
   callChatAPI env this message =
     callChatAPI (env\<lparr>fetch := \<lambda>_. fetch env
         \<lparr>req_message = message,
          req_conversationHistory =
            drop (length (conversationHistory this) - 6) (conversationHistory this)\<rparr>\<rparr>)
       this message"
proof -
  have s: "slice_from (- 6) (conversationHistory this) =
      drop (length (conversationHistory this) - 6) (conversationHistory this)"
    by (rule slice_from_last_6)
  show ?thesis
    by (auto simp: chat_request_body_def s callChatAPI_def suffix_drop)
qed

text \<open>
  Claim C6.  The stored history is append-only until cleared: \<open>processUrduText\<close>, once or
  any number of times, keeps the stored records as a prefix of the new history,
  \<open>getConversationHistory\<close> leaves the object as it is, and \<open>clearHistory\<close> leaves the
  empty history.
\<close>

theorem history_append_only_until_cleared:
  "prefix (conversationHistory this)
     (conversationHistory (snd (processUrduText env this userInput))) \<and>
   prefix (conversationHistory this) (conversationHistory (process_all calls this)) \<and>
   snd (getConversationHistory this) = this \<and>
   fst (getConversationHistory this) = conversationHistory this \<and>
   conversationHistory (clearHistory this) = []"
proof -
  have "prefix (conversationHistory this)
     (conversationHistory (snd (processUrduText env this userInput)))"
    using processUrduText_history [of env this userInput] by (auto simp: prefix_def)
  moreover have "prefix (conversationHistory this) (conversationHistory (process_all calls this))"
    using process_all_history [of calls this] by (auto simp: prefix_def)
  ultimately show ?thesis
    by (simp add: getConversationHistory_def clearHistory_def)
qed

text \<open>
  Claim C2 as stated, that some fixed bound limits the stored history after every sequence
  of \<open>processUrduText\<close> calls, fails: \<open>B + 1\<close> calls on a platform without network
  leave more than \<open>B\<close> records.
\<close>

theorem history_unbounded_counterexample:
  "\<not> (\<exists>B. \<forall>calls. length (conversationHistory (process_all calls new_LanguageModel)) \<le> B)"
proof
  assume "\<exists>B. \<forall>calls. length (conversationHistory (process_all calls new_LanguageModel)) \<le> B"
  then obtain B where B: "\<And>calls. length (conversationHistory (process_all calls new_LanguageModel)) \<le> B"
    by blast
  define calls where "calls = replicate (Suc B) (offline, lit ''hello'')"
  obtain new where "conversationHistory (process_all calls new_LanguageModel) =
      conversationHistory new_LanguageModel @ new" "length calls \<le> length new"
    using process_all_history [of calls new_LanguageModel] by blast
  then have "Suc B \<le> length (conversationHistory (process_all calls new_LanguageModel))"
    by (simp add: calls_def)
  with B [of calls] show False by simp
qed

text \<open>
  Claim C2, amended.  The stored history is not bounded: every \<open>processUrduText\<close> call
  adds one or two records and none is ever dropped, so \<open>n\<close> calls add between \<open>n\<close> and
  \<open>2 * n\<close> records.  What is bounded is the part of the history sent with a chat
  request: at most 6 records.
\<close>

theorem history_growth:
  "length (conversationHistory this) + length calls
     \<le> length (conversationHistory (process_all calls this)) \<and>
   length (conversationHistory (process_all calls this))
     \<le> length (conversationHistory this) + 2 * length calls \<and>
   length (req_conversationHistory (chat_request_body this message)) \<le> 6"
proof -
  have "length (req_conversationHistory (chat_request_body this message)) \<le> 6"
    by (simp add: chat_request_body_def slice_from_last_6)
  then show ?thesis
    using process_all_history [of calls this] by auto
qed






section \<open>The speech-to-text route: which transcript is returned\<close>

lemma duration_less_1: "duration n < 1 \<longleftrightarrow> n < 32000"
proof
  assume "duration n < 1"
  show "n < 32000"
  proof (rule ccontr)
    assume "\<not> n < 32000"
    then have "(1 :: rat) \<le> of_nat n / 32000" by simp
    then have "1 \<le> duration n" unfolding duration_def by (rule fl_ge_1)
    with \<open>duration n < 1\<close> show False by simp
  qed
next
  assume "n < 32000"
  then have "n \<le> 31999" by simp
  then have "(of_nat n :: rat) \<le> 31999" by (metis of_nat_le_iff of_nat_numeral)
  then have "(of_nat n :: rat) / 32000 \<le> 1 - 1 / 2 ^ 52" by simp
  then show "duration n < 1" unfolding duration_def by (intro fl_less_1) simp_all
qed

lemma duration_less_2: "duration n < 2 \<longleftrightarrow> n < 64000"
proof
  assume "duration n < 2"
  show "n < 64000"
  proof (rule ccontr)
    assume "\<not> n < 64000"
    then have "(2 :: rat) \<le> of_nat n / 32000" by simp
    then have "2 \<le> duration n" unfolding duration_def by (rule fl_ge_2)
    with \<open>duration n < 2\<close> show False by simp
  qed
next
  assume "n < 64000"
  then have "n \<le> 63999" by simp
  then have "(of_nat n :: rat) \<le> 63999" by (metis of_nat_le_iff of_nat_numeral)
  then have "(of_nat n :: rat) / 32000 \<le> 2 - 1 / 2 ^ 51" by simp
  then show "duration n < 2" unfolding duration_def by (intro fl_less_2) simp_all
qed

lemma duration_less_3: "duration n < 3 \<longleftrightarrow> n < 96000"
proof
  assume "duration n < 3"
  show "n < 96000"
  proof (rule ccontr)
    assume "\<not> n < 96000"
    then have "(3 :: rat) \<le> of_nat n / 32000" by simp
    then have "3 \<le> duration n" unfolding duration_def by (rule fl_ge_3)
    with \<open>duration n < 3\<close> show False by simp
  qed
next
  assume "n < 96000"
  then have "n \<le> 95999" by simp
  then have "(of_nat n :: rat) \<le> 95999" by (metis of_nat_le_iff of_nat_numeral)
  then have "(of_nat n :: rat) / 32000 < 3 - 1 / 2 ^ 52" by simp
  then show "duration n < 3" unfolding duration_def by (intro fl_less_3) simp_all
qed

lemma processAudioWithWebSpeechAPI_eq:
  "processAudioWithWebSpeechAPI buffer urduType =
     Some (transcript_by_duration (length buffer) (is_roman urduType))"
  by (simp add: processAudioWithWebSpeechAPI_def transcript_by_duration_def Let_def
      duration_less_1 duration_less_2 duration_less_3)

lemma lit_nonempty: "s \<noteq> [] \<Longrightarrow> lit s \<noteq> []"
  by (simp add: lit_def)

lemma transcript_by_duration_nonempty: "transcript_by_duration n roman \<noteq> []"
  by (simp add: transcript_by_duration_def hello_roman_def hello_pure_def
      aap_kaise_hain_roman_def aap_kaise_hain_pure_def mujhe_urdu_roman_def mujhe_urdu_pure_def
      main_aaj_roman_def main_aaj_pure_def lit_nonempty)

lemma stt_POST_file:
  "stt_POST \<lparr>form_audio = Some (FormFile name buffer), form_urduType = entry\<rparr> =
     Transcribed (transcript_by_duration (length buffer) (is_roman (effective_urduType entry)))
       (effective_urduType entry) (lit ''web_speech_api'')"
  by (simp add: stt_POST_def effective_urduType_def processAudioWithWebSpeechAPI_eq
      transcript_by_duration_nonempty Let_def split: option.splits form_value.splits)

text \<open>
  Claim C1 as stated, that the transcript is the entry of the fixed list at index
  (byte length mod list length), fails: for a file of 2 bytes and no \<open>urduType\<close> the list
  entry is the one at index 2, \<open>Yeh kitne ka hai?\<close>, and the route answers \<open>Hello\<close>.
\<close>

theorem stt_modulo_counterexample:
  "response_text (stt_POST \<lparr>form_audio = Some (FormFile (lit ''a.wav'') [0, 0]),
                             form_urduType = None\<rparr>)
     \<noteq> Some (simulated_roman ! (length [0 :: byte, 0] mod length simulated_roman))"
  by (simp add: stt_POST_file response_text_def transcript_by_duration_def
      effective_urduType_def is_roman_def simulated_roman_def hello_roman_def lit_def)

text \<open>
  Claim C1, amended.  For every request that carries an audio file, the transcript of
  the reply is selected by thresholds on the byte length of the uploaded buffer: below
  32000 bytes \<open>Hello\<close>, below 64000 \<open>Aap kaise hain?\<close>, below 96000
  \<open>Mujhe Urdu mein baat karni hai\<close>, and \<open>Main aaj bahut khush hoon\<close> from there on,
  each in Urdu script when the requested \<open>urduType\<close> is not \<open>roman\<close>.
\<close>

theorem stt_transcript_by_thresholds:
  "response_text (stt_POST \<lparr>form_audio = Some (FormFile name buffer), form_urduType = entry\<rparr>) =
     Some (let n = length buffer; roman = is_roman (effective_urduType entry)
           in if n < 32000 then (if roman then hello_roman else hello_pure)
              else if n < 64000
              then (if roman then aap_kaise_hain_roman else aap_kaise_hain_pure)
              else if n < 96000 then (if roman then mujhe_urdu_roman else mujhe_urdu_pure)
              else (if roman then main_aaj_roman else main_aaj_pure))"
  by (simp add: stt_POST_file response_text_def transcript_by_duration_def Let_def)

text \<open>
  Claim C9.  For every request that carries an audio file the \<open>simulated\<close> fallback is not
  reached: \<open>processAudioWithWebSpeechAPI\<close> returns a transcript that is neither
  \<^verbatim>\<open>null\<close> nor empty, the one selected by the thresholds 1, 2 and 3 on
  \<open>duration\<close> (byte length / 32000), and the reply reports the method
  \<open>web_speech_api\<close>.
\<close>

theorem stt_fallback_unreachable:
  "(\<exists>t. processAudioWithWebSpeechAPI buffer urduType = Some t \<and> t \<noteq> [] \<and>
        t = (if duration (length buffer) < 1
             then (if is_roman urduType then hello_roman else hello_pure)
             else if duration (length buffer) < 2
             then (if is_roman urduType then aap_kaise_hain_roman else aap_kaise_hain_pure)
             else if duration (length buffer) < 3
             then (if is_roman urduType then mujhe_urdu_roman else mujhe_urdu_pure)
             else (if is_roman urduType then main_aaj_roman else main_aaj_pure))) \<and>
   response_method
     (stt_POST \<lparr>form_audio = Some (FormFile name buffer), form_urduType = entry\<rparr>) =
     Some (lit ''web_speech_api'') \<and>
   response_method
     (stt_POST \<lparr>form_audio = Some (FormFile name buffer), form_urduType = entry\<rparr>) \<noteq>
     Some (lit ''simulated'')"
proof -
  have "processAudioWithWebSpeechAPI buffer urduType =
      Some (transcript_by_duration (length buffer) (is_roman urduType))"
    by (rule processAudioWithWebSpeechAPI_eq)
  moreover have "transcript_by_duration (length buffer) (is_roman urduType) \<noteq> []"
    by (rule transcript_by_duration_nonempty)
  moreover have "transcript_by_duration (length buffer) (is_roman urduType) =
      (if duration (length buffer) < 1
       then (if is_roman urduType then hello_roman else hello_pure)
       else if duration (length buffer) < 2
       then (if is_roman urduType then aap_kaise_hain_roman else aap_kaise_hain_pure)
       else if duration (length buffer) < 3
       then (if is_roman urduType then mujhe_urdu_roman else mujhe_urdu_pure)
       else (if is_roman urduType then main_aaj_roman else main_aaj_pure))"
    by (simp add: transcript_by_duration_def duration_less_1 duration_less_2 duration_less_3)
  moreover have "lit ''web_speech_api'' \<noteq> lit ''simulated''"
    by (simp add: lit_def)
  ultimately show ?thesis
    by (simp add: stt_POST_file response_method_def)
qed

section \<open>The chat route: the response field\<close>

lemma trim_outer:
  "trim s = [] \<or> (\<not> is_white_space (hd (trim s)) \<and> \<not> is_white_space (last (trim s)))"
proof (cases "trim s = []")
  case True
  then show ?thesis by simp
next
  case False
  define t where "t = dropWhile is_white_space s"
  define u where "u = dropWhile is_white_space (rev t)"
  have tr: "trim s = rev u" by (simp add: trim_def t_def u_def)
  with False have u: "u \<noteq> []" by simp
  then have "\<not> is_white_space (hd u)" unfolding u_def by (rule hd_dropWhile)
  then have l: "\<not> is_white_space (last (trim s))" using u by (simp add: tr last_rev)
  obtain k where k: "u = drop k (rev t)"
    unfolding u_def by (metis dropWhile_eq_drop)
  have "t \<noteq> []" using u k by auto
  then have ht: "\<not> is_white_space (hd t)" unfolding t_def by (rule hd_dropWhile)
  have "last u = last (rev t)" using u k by (metis last_drop drop_eq_Nil not_le)
  also have "\<dots> = hd t" using \<open>t \<noteq> []\<close> by (simp add: last_rev)
  finally have "hd (trim s) = hd t" using u by (simp add: tr hd_rev)
  with ht l show ?thesis by simp
qed

lemma trim_apology: "trim apology = apology"
  by (simp add: trim_def apology_def lit_def is_white_space_def)

text \<open>
  What holds of a success reply: its \<open>response\<close> has no white space at either end, and a
  completion without content, or with the empty string as content, is answered with the
  apology sentence.
\<close>

lemma chat_POST_response_trimmed:
  "json_success (chat_POST env) = Some True \<Longrightarrow>
     \<exists>r. json_response (chat_POST env) = Some r \<and>
         (r = [] \<or> (\<not> is_white_space (hd r) \<and> \<not> is_white_space (last r)))"
  using trim_outer
  by (auto simp: chat_POST_def failed_500_def Let_def
      split: option.splits if_splits completion.splits)

lemma chat_POST_apology:
  "request_json env = Some body \<Longrightarrow> body_message body \<noteq> [] \<Longrightarrow> zai_create env \<Longrightarrow>
   completions_create env system_message
     (systemPrompt (conversation_context (body_conversationHistory body)) (body_message body)) =
     CompletionContent c \<Longrightarrow> c = None \<or> c = Some [] \<Longrightarrow>
   json_response (chat_POST env) = Some apology"
  by (auto simp: chat_POST_def Let_def trim_apology)

text \<open>
  Claim C10 says that the \<open>response\<close> of a success reply is never empty.  The route puts
  the apology in the place of a missing or empty completion before it trims, so a
  completion made of white space only passes the test and is trimmed to nothing: when
  the language model answers with a single space, the reply has \<open>success\<close> true and the
  empty string as \<open>response\<close>.
\<close>

theorem chat_POST_blank_completion:
  "json_status (chat_POST blank_model) = 200 \<and>
   json_success (chat_POST blank_model) = Some True \<and>
   json_response (chat_POST blank_model) = Some []"
  by (simp add: chat_POST_def blank_model_def Let_def trim_def lit_def is_white_space_def)

section \<open>Restarting recognition after a no-speech error\<close>








section \<open>Tearing down with cleanup\<close>

text \<open>
  Claim C8 as stated fails for the restart timer: \<open>AudioProcessor\<close> keeps no handle to
  the timer that its error handler sets, and \<open>cleanup\<close> leaves it pending.  After a
  no-speech error on a listening processor, the timer with handle 6 is still pending
  when \<open>cleanup\<close> is done.
\<close>

theorem cleanup_restart_timer_counterexample:
  "timeouts (snd (ap_cleanup
     (ap_onerror (lit ''no-speech'') (listening_processor, listening_browser)))) = [(6, 1000)]"
  by (simp add: ap_cleanup_def ap_onerror_def ap_stopListening_def ap_stopAudioMonitoring_def
      ap_stopSpeaking_def listening_processor_def listening_browser_def fresh_browser_def
      setTimeout_def report_def recognition_stop_def cancelAnimationFrame_def truthy_def
      stop_tracks_def close_context_def Let_def)

lemmas ap_cleanup_defs =
  ap_cleanup_def ap_stopListening_def ap_stopAudioMonitoring_def ap_stopSpeaking_def
  recognition_stop_def cancelAnimationFrame_def truthy_def stop_tracks_def close_context_def
  Let_def

lemma ap_cleanup_fst:
  "fst (ap_cleanup (this, w)) =
     this\<lparr>ap_isListening := False,
          ap_animationId := (if truthy (ap_animationId this) then None else ap_animationId this),
          ap_currentUtterance := None, ap_mediaStream := None, ap_audioContext := None,
          ap_analyser := None, ap_recognition := None\<rparr>"
  by (cases "ap_mediaStream this"; cases "ap_audioContext this"; cases "ap_recognition this")
     (simp_all add: ap_cleanup_def ap_stopListening_def ap_stopAudioMonitoring_def
       ap_stopSpeaking_def Let_def)

lemma ap_cleanup_snd:
  "frames (snd (ap_cleanup (this, w))) =
     (if truthy (ap_animationId this) then removeAll (the (ap_animationId this)) (frames w)
      else frames w)"
  "live_tracks (snd (ap_cleanup (this, w))) =
     (case ap_mediaStream this of None \<Rightarrow> live_tracks w
      | Some tracks \<Rightarrow> filter (\<lambda>t. t \<notin> set tracks) (live_tracks w))"
  "open_contexts (snd (ap_cleanup (this, w))) =
     (case ap_audioContext this of None \<Rightarrow> open_contexts w
      | Some c \<Rightarrow> removeAll c (open_contexts w))"
  "active_recognitions (snd (ap_cleanup (this, w))) =
     (case ap_recognition this of None \<Rightarrow> active_recognitions w
      | Some r \<Rightarrow> removeAll r (active_recognitions w))"
  "timeouts (snd (ap_cleanup (this, w))) = timeouts w"
  by (cases "ap_mediaStream this"; cases "ap_audioContext this"; cases "ap_recognition this";
      simp add: ap_cleanup_defs)+

lemma rt_cleanup_fst:
  "fst (rt_cleanup (that, v)) \<Longrightarrow>
   fst (snd (rt_cleanup (that, v))) =
     that\<lparr>rt_isRecording := False,
          rt_processingInterval :=
            (if truthy (rt_processingInterval that) then None else rt_processingInterval that),
          rt_processor := None, rt_mediaStream := None, rt_audioContext := None,
          rt_ws := None\<rparr>"
  by (cases "rt_mediaStream that"; cases "rt_audioContext that"; cases "rt_processor that";
      cases "rt_ws that")
     (simp_all add: rt_cleanup_def rt_close_socket_def close_context_def Let_def
       split: if_splits)

lemma rt_cleanup_snd:
  assumes "fst (rt_cleanup (that, v))"
  shows "intervals (snd (snd (rt_cleanup (that, v)))) =
     (if truthy (rt_processingInterval that)
      then removeAll (the (rt_processingInterval that)) (intervals v) else intervals v)"
  "live_tracks (snd (snd (rt_cleanup (that, v)))) =
     (case rt_mediaStream that of None \<Rightarrow> live_tracks v
      | Some tracks \<Rightarrow> filter (\<lambda>t. t \<notin> set tracks) (live_tracks v))"
  "open_contexts (snd (snd (rt_cleanup (that, v)))) =
     (case rt_audioContext that of None \<Rightarrow> open_contexts v
      | Some c \<Rightarrow> removeAll c (open_contexts v))"
  "connected_nodes (snd (snd (rt_cleanup (that, v)))) =
     (case rt_processor that of None \<Rightarrow> connected_nodes v
      | Some p \<Rightarrow> removeAll p (connected_nodes v))"
  "open_sockets (snd (snd (rt_cleanup (that, v)))) =
     (case rt_ws that of None \<Rightarrow> open_sockets v | Some s \<Rightarrow> removeAll s (open_sockets v))"
  using assms
  by (cases "rt_mediaStream that"; cases "rt_audioContext that"; cases "rt_processor that";
      cases "rt_ws that";
      simp add: rt_cleanup_def rt_close_socket_def close_context_def clearInterval_def
        stop_tracks_def Let_def split: if_splits)+

lemma ap_cleanup_fields:
  assumes "ap_animationId this \<noteq> Some 0" "ap_cleanup (this, w) = (this', w')"
  shows "ap_mediaStream this' = None \<and> ap_audioContext this' = None \<and>
    ap_analyser this' = None \<and> ap_recognition this' = None \<and> \<not> ap_isListening this' \<and>
    ap_animationId this' = None \<and> ap_currentUtterance this' = None"
proof -
  have "this' = fst (ap_cleanup (this, w))" using assms(2) by simp
  then show ?thesis
    using assms(1) by (cases "ap_animationId this") (simp_all add: ap_cleanup_fst truthy_def)
qed

lemma ap_cleanup_browser:
  assumes "ap_animationId this \<noteq> Some 0" "ap_cleanup (this, w) = (this', w')"
  shows "(case ap_animationId this of None \<Rightarrow> True | Some h \<Rightarrow> h \<notin> set (frames w')) \<and>
    (case ap_mediaStream this of None \<Rightarrow> True
     | Some tracks \<Rightarrow> set tracks \<inter> set (live_tracks w') = {}) \<and>
    (case ap_audioContext this of None \<Rightarrow> True | Some c \<Rightarrow> c \<notin> set (open_contexts w')) \<and>
    (case ap_recognition this of None \<Rightarrow> True | Some r \<Rightarrow> r \<notin> set (active_recognitions w')) \<and>
    timeouts w' = timeouts w"
proof -
  have w': "w' = snd (ap_cleanup (this, w))" using assms(2) by simp
  have "case ap_animationId this of None \<Rightarrow> True | Some h \<Rightarrow> h \<notin> set (frames w')"
    using assms(1) by (cases "ap_animationId this") (simp_all add: w' ap_cleanup_snd truthy_def)
  moreover have "case ap_mediaStream this of None \<Rightarrow> True
     | Some tracks \<Rightarrow> set tracks \<inter> set (live_tracks w') = {}"
    by (cases "ap_mediaStream this") (auto simp: w' ap_cleanup_snd)
  moreover have "case ap_audioContext this of None \<Rightarrow> True
     | Some c \<Rightarrow> c \<notin> set (open_contexts w')"
    by (cases "ap_audioContext this") (simp_all add: w' ap_cleanup_snd)
  moreover have "case ap_recognition this of None \<Rightarrow> True
     | Some r \<Rightarrow> r \<notin> set (active_recognitions w')"
    by (cases "ap_recognition this") (simp_all add: w' ap_cleanup_snd)
  moreover have "timeouts w' = timeouts w" by (simp add: w' ap_cleanup_snd)
  ultimately show ?thesis by blast
qed

lemma ap_restart_after_cleanup:
  assumes "ap_cleanup (this, w) = (this', w')"
  shows "active_recognitions (snd (ap_restart_fires h (this', w'))) = active_recognitions w'"
proof -
  have "this' = fst (ap_cleanup (this, w))" using assms by simp
  then have "\<not> ap_isListening this'" by (simp add: ap_cleanup_fst)
  then show ?thesis by (simp add: ap_restart_fires_def Let_def)
qed

lemma rt_cleanup_completed:
  assumes "rt_processingInterval that \<noteq> Some 0" "rt_cleanup (that, v) = (True, that', v')"
  shows "rt_mediaStream that' = None \<and> rt_audioContext that' = None \<and>
    rt_processor that' = None \<and> rt_ws that' = None \<and> \<not> rt_isRecording that' \<and>
    rt_processingInterval that' = None \<and>
    (case rt_processingInterval that of None \<Rightarrow> True | Some h \<Rightarrow> h \<notin> set (intervals v')) \<and>
    (case rt_mediaStream that of None \<Rightarrow> True
     | Some tracks \<Rightarrow> set tracks \<inter> set (live_tracks v') = {}) \<and>
    (case rt_audioContext that of None \<Rightarrow> True | Some c \<Rightarrow> c \<notin> set (open_contexts v')) \<and>
    (case rt_processor that of None \<Rightarrow> True | Some p \<Rightarrow> p \<notin> set (connected_nodes v')) \<and>
    (case rt_ws that of None \<Rightarrow> True | Some s \<Rightarrow> s \<notin> set (open_sockets v'))"
proof -
  have c: "fst (rt_cleanup (that, v))" using assms(2) by simp
  have that': "that' = fst (snd (rt_cleanup (that, v)))" using assms(2) by simp
  have v': "v' = snd (snd (rt_cleanup (that, v)))" using assms(2) by simp
  have "rt_mediaStream that' = None \<and> rt_audioContext that' = None \<and>
    rt_processor that' = None \<and> rt_ws that' = None \<and> \<not> rt_isRecording that' \<and>
    rt_processingInterval that' = None"
    using assms(1)
    by (cases "rt_processingInterval that") (simp_all add: that' rt_cleanup_fst [OF c] truthy_def)
  moreover have "case rt_processingInterval that of None \<Rightarrow> True
     | Some h \<Rightarrow> h \<notin> set (intervals v')"
    using assms(1)
    by (cases "rt_processingInterval that") (simp_all add: v' rt_cleanup_snd [OF c] truthy_def)
  moreover have "case rt_mediaStream that of None \<Rightarrow> True
     | Some tracks \<Rightarrow> set tracks \<inter> set (live_tracks v') = {}"
    by (cases "rt_mediaStream that") (auto simp: v' rt_cleanup_snd [OF c])
  moreover have "case rt_audioContext that of None \<Rightarrow> True
     | Some c \<Rightarrow> c \<notin> set (open_contexts v')"
    by (cases "rt_audioContext that") (simp_all add: v' rt_cleanup_snd [OF c])
  moreover have "case rt_processor that of None \<Rightarrow> True
     | Some p \<Rightarrow> p \<notin> set (connected_nodes v')"
    by (cases "rt_processor that") (simp_all add: v' rt_cleanup_snd [OF c])
  moreover have "case rt_ws that of None \<Rightarrow> True | Some s \<Rightarrow> s \<notin> set (open_sockets v')"
    by (cases "rt_ws that") (simp_all add: v' rt_cleanup_snd [OF c])
  ultimately show ?thesis by blast
qed

text \<open>
  Claim C8, amended.  After \<open>cleanup\<close> of an \<open>AudioProcessor\<close> the media stream, audio
  context, analyser and recognition references are null, the listening flag is false,
  the animation frame of the level monitor is cancelled, the tracks are stopped, the
  context is closed and the recognition session is stopped.  After \<open>cleanup\<close> of a
  \<open>RealTimeAudioProcessor\<close> has completed, the media stream, audio context, processor and
  socket references are null, the recording flag is false and the processing interval is
  cancelled.  A pending restart timer of \<open>AudioProcessor\<close> is not cancelled; when it fires
  after \<open>cleanup\<close> it does not start recognition.  (Handles of animation frames and
  intervals are positive, as the browser hands them out.)
\<close>

theorem cleanup_tears_down:
  assumes "ap_animationId this \<noteq> Some 0" "ap_cleanup (this, w) = (this', w')"
    and "rt_processingInterval that \<noteq> Some 0" "rt_cleanup (that, v) = (True, that', v')"
  shows "ap_mediaStream this' = None \<and> ap_audioContext this' = None \<and>
    ap_analyser this' = None \<and> ap_recognition this' = None \<and> \<not> ap_isListening this' \<and>
    ap_animationId this' = None \<and> ap_currentUtterance this' = None \<and>
    (case ap_animationId this of None \<Rightarrow> True | Some h \<Rightarrow> h \<notin> set (frames w')) \<and>
    (case ap_mediaStream this of None \<Rightarrow> True
     | Some tracks \<Rightarrow> set tracks \<inter> set (live_tracks w') = {}) \<and>
    (case ap_audioContext this of None \<Rightarrow> True | Some c \<Rightarrow> c \<notin> set (open_contexts w')) \<and>
    (case ap_recognition this of None \<Rightarrow> True | Some r \<Rightarrow> r \<notin> set (active_recognitions w')) \<and>
    timeouts w' = timeouts w \<and>
    active_recognitions (snd (ap_restart_fires h (this', w'))) = active_recognitions w' \<and>
    rt_mediaStream that' = None \<and> rt_audioContext that' = None \<and>
    rt_processor that' = None \<and> rt_ws that' = None \<and> \<not> rt_isRecording that' \<and>
    rt_processingInterval that' = None \<and>
    (case rt_processingInterval that of None \<Rightarrow> True | Some h \<Rightarrow> h \<notin> set (intervals v')) \<and>
    (case rt_mediaStream that of None \<Rightarrow> True
     | Some tracks \<Rightarrow> set tracks \<inter> set (live_tracks v') = {}) \<and>
    (case rt_audioContext that of None \<Rightarrow> True | Some c \<Rightarrow> c \<notin> set (open_contexts v')) \<and>
    (case rt_processor that of None \<Rightarrow> True | Some p \<Rightarrow> p \<notin> set (connected_nodes v')) \<and>
    (case rt_ws that of None \<Rightarrow> True | Some s \<Rightarrow> s \<notin> set (open_sockets v'))"
  using ap_cleanup_fields [OF assms(1,2)] ap_cleanup_browser [OF assms(1,2)]
    ap_restart_after_cleanup [OF assms(2), of h] rt_cleanup_completed [OF assms(3,4)]
  by simp

theorem cleanup_tears_down_witness:
  "ap_animationId listening_processor \<noteq> Some 0 \<and>
   ap_cleanup (listening_processor, listening_browser) =
     (\<lparr>ap_audioContext = None, ap_mediaStream = None, ap_analyser = None,
       ap_animationId = None, ap_onError = True, ap_onSpeechResult = True,
       ap_isListening = False, ap_recognition = None, ap_synthesis = True,
       ap_currentUtterance = None\<rparr>, fresh_browser\<lparr>last_handle := 5\<rparr>) \<and>
   rt_processingInterval recording_processor \<noteq> Some 0 \<and>
   rt_cleanup (recording_processor, recording_browser) =
     (True,
      \<lparr>rt_ws = None, rt_audioContext = None, rt_mediaStream = None, rt_processor = None,
       rt_isRecording = False, rt_audioBuffer = [], rt_processingInterval = None\<rparr>,
      fresh_browser\<lparr>last_handle := 4\<rparr>) \<and>
   5 \<notin> set (frames (fresh_browser\<lparr>last_handle := 5\<rparr>)) \<and>
   4 \<notin> set (intervals (fresh_browser\<lparr>last_handle := 4\<rparr>))"
proof -
  have a: "ap_animationId listening_processor \<noteq> Some 0"
    by (simp add: listening_processor_def)
  have b: "ap_cleanup (listening_processor, listening_browser) =
     (\<lparr>ap_audioContext = None, ap_mediaStream = None, ap_analyser = None,
       ap_animationId = None, ap_onError = True, ap_onSpeechResult = True,
       ap_isListening = False, ap_recognition = None, ap_synthesis = True,
       ap_currentUtterance = None\<rparr>, fresh_browser\<lparr>last_handle := 5\<rparr>)"
    by (simp add: ap_cleanup_defs listening_processor_def listening_browser_def
        fresh_browser_def)
  have c: "rt_processingInterval recording_processor \<noteq> Some 0"
    by (simp add: recording_processor_def)
  have d: "rt_cleanup (recording_processor, recording_browser) =
     (True,
      \<lparr>rt_ws = None, rt_audioContext = None, rt_mediaStream = None, rt_processor = None,
       rt_isRecording = False, rt_audioBuffer = [], rt_processingInterval = None\<rparr>,
      fresh_browser\<lparr>last_handle := 4\<rparr>)"
    by (simp add: rt_cleanup_def rt_close_socket_def clearInterval_def truthy_def
        stop_tracks_def close_context_def Let_def recording_processor_def
        recording_browser_def fresh_browser_def)
  from cleanup_tears_down [OF a b c d, of 6] show ?thesis
    using a b c d by (simp add: listening_processor_def recording_processor_def)
qed

section \<open>The text-to-speech route: the WAV buffer\<close>

subsection \<open>The number of samples\<close>

lemma fl_7_100: "fl (7 / 100) = 1261007895663739 / 18014398509481984"
  by (simp add: fl_eval)

lemma web_speech_samples_table:
  "web_speech_samples 0 = 0"
  "web_speech_samples (Suc 0) = 1543"
  "web_speech_samples 2 = 3087"
  "web_speech_samples 3 = 4630"
  "web_speech_samples 4 = 6174"
  "web_speech_samples 5 = 7717"
  "web_speech_samples 6 = 9261"
  "web_speech_samples 7 = 10804"
  "web_speech_samples 8 = 12348"
  "web_speech_samples 9 = 13891"
  "web_speech_samples 10 = 15435"
  "web_speech_samples 11 = 16978"
  "web_speech_samples 12 = 18522"
  "web_speech_samples 13 = 20065"
  "web_speech_samples 14 = 21609"
  "web_speech_samples 15 = 23152"
  "web_speech_samples 16 = 24696"
  "web_speech_samples 17 = 26239"
  "web_speech_samples 18 = 27783"
  "web_speech_samples 19 = 29326"
  "web_speech_samples 20 = 30870"
  "web_speech_samples 21 = 32413"
  "web_speech_samples 22 = 33957"
  "web_speech_samples 23 = 35500"
  "web_speech_samples 24 = 37044"
  "web_speech_samples 25 = 38587"
  "web_speech_samples 26 = 40131"
  "web_speech_samples 27 = 41674"
  "web_speech_samples 28 = 43218"
  "web_speech_samples 29 = 44761"
  "web_speech_samples 30 = 46305"
  "web_speech_samples 31 = 47848"
  "web_speech_samples 32 = 49392"
  "web_speech_samples 33 = 50935"
  "web_speech_samples 34 = 52479"
  "web_speech_samples 35 = 54022"
  "web_speech_samples 36 = 55566"
  "web_speech_samples 37 = 57109"
  "web_speech_samples 38 = 58653"
  "web_speech_samples 39 = 60196"
  "web_speech_samples 40 = 61740"
  "web_speech_samples 41 = 63283"
  "web_speech_samples 42 = 64827"
  by (simp_all add: web_speech_samples_def sampleRate_def fl_eval)

lemma claimed_samples_table:
  "claimed_samples 0 = 0"
  "claimed_samples (Suc 0) = 1543"
  "claimed_samples 2 = 3087"
  "claimed_samples 3 = 4630"
  "claimed_samples 4 = 6174"
  "claimed_samples 5 = 7717"
  "claimed_samples 6 = 9261"
  "claimed_samples 7 = 10804"
  "claimed_samples 8 = 12348"
  "claimed_samples 9 = 13891"
  "claimed_samples 10 = 15435"
  "claimed_samples 11 = 16978"
  "claimed_samples 12 = 18522"
  "claimed_samples 13 = 20065"
  "claimed_samples 14 = 21609"
  "claimed_samples 15 = 23152"
  "claimed_samples 16 = 24696"
  "claimed_samples 17 = 26239"
  "claimed_samples 18 = 27783"
  "claimed_samples 19 = 29326"
  "claimed_samples 20 = 30870"
  "claimed_samples 21 = 32413"
  "claimed_samples 22 = 33957"
  "claimed_samples 23 = 35500"
  "claimed_samples 24 = 37044"
  "claimed_samples 25 = 38587"
  "claimed_samples 26 = 40131"
  "claimed_samples 27 = 41674"
  "claimed_samples 28 = 43218"
  "claimed_samples 29 = 44761"
  "claimed_samples 30 = 46305"
  "claimed_samples 31 = 47848"
  "claimed_samples 32 = 49392"
  "claimed_samples 33 = 50935"
  "claimed_samples 34 = 52479"
  "claimed_samples 35 = 54022"
  "claimed_samples 36 = 55566"
  "claimed_samples 37 = 57109"
  "claimed_samples 38 = 58653"
  "claimed_samples 39 = 60196"
  "claimed_samples 40 = 61740"
  "claimed_samples 41 = 63283"
  "claimed_samples 42 = 64827"
  by (simp_all add: claimed_samples_def floor_rat_numeral)

lemma upt_43:
  "[0..<43] = [0, 1, 2, 3, 4, 5, 6, 7, 8, 9, 10, 11, 12, 13, 14, 15, 16, 17, 18, 19, 20, 21,
     22, 23, 24, 25, 26, 27, 28, 29, 30, 31, 32, 33, 34, 35, 36, 37, 38, 39, 40, 41, 42]"
  by (simp add: upt_rec)

lemma web_speech_samples_short:
  assumes "n < 43"
  shows "web_speech_samples n = claimed_samples n"
proof -
  have "\<forall>k \<in> set [0..<43]. web_speech_samples k = claimed_samples k"
    unfolding upt_43 by (simp add: web_speech_samples_table claimed_samples_table)
  then show ?thesis using assms by simp
qed

lemma web_speech_samples_long:
  assumes "43 \<le> n"
  shows "web_speech_samples n = 66150" "claimed_samples n = 66150"
proof -
  have n: "(43 :: rat) \<le> of_nat n" using assms by (metis of_nat_le_iff of_nat_numeral)
  have "(3 :: rat) \<le> 43 * (1261007895663739 / 18014398509481984)" by simp
  also have "\<dots> \<le> of_nat n * (1261007895663739 / 18014398509481984)"
    using n by (rule mult_right_mono) simp
  finally have "3 \<le> fl (of_nat n * fl (7 / 100))"
    unfolding fl_7_100 by (rule fl_ge_3)
  then have m: "min (fl (of_nat n * fl (7 / 100))) 3 = 3" by simp
  have e: "fl 66150 = 66150" by (simp add: fl_eval)
  show "web_speech_samples n = 66150"
    unfolding web_speech_samples_def Let_def m sampleRate_def by (simp add: e)
  have "(3 :: rat) \<le> 7 / 100 * 43" by simp
  also have "\<dots> \<le> 7 / 100 * of_nat n" using n by (rule mult_left_mono) simp
  finally have "min (7 / 100 * of_nat n) (3 :: rat) = 3" by simp
  then show "claimed_samples n = 66150" by (simp add: claimed_samples_def)
qed

lemma web_speech_samples_eq: "web_speech_samples n = claimed_samples n"
  by (cases "n < 43") (simp_all add: web_speech_samples_short web_speech_samples_long)

lemma claimed_samples_le: "claimed_samples n \<le> 66150"
proof -
  have "22050 * min (7 / 100 * of_nat n) (3 :: rat) \<le> 22050 * 3"
    by (rule mult_left_mono) simp_all
  then have "\<lfloor>22050 * min (7 / 100 * of_nat n) (3 :: rat)\<rfloor> \<le> 66150"
    by (simp only: floor_le_iff)
  then show ?thesis unfolding claimed_samples_def .
qed

lemma claimed_samples_nonneg: "0 \<le> claimed_samples n"
  unfolding claimed_samples_def by (simp add: min_def)

subsection \<open>Writing and reading the header\<close>

lemma unat_le_byte: "unat (le_byte k v) = (v div 256 ^ k) mod 256"
  by (simp add: le_byte_def unat_of_nat)

lemma le_bytes_32:
  assumes "v < 4294967296"
  shows "unat (le_byte 0 v) + 256 * unat (le_byte 1 v) + 65536 * unat (le_byte 2 v) +
     16777216 * unat (le_byte 3 v) = v"
proof -
  define q1 q2 q3 where "q1 = v div 256" and "q2 = q1 div 256" and "q3 = q2 div 256"
  define r0 r1 r2 where "r0 = v mod 256" and "r1 = q1 mod 256" and "r2 = q2 mod 256"
  have q: "v div 65536 = q2" "v div 16777216 = q3"
    by (simp_all add: q1_def q2_def q3_def div_mult2_eq)
  have "q3 < 256" using assms unfolding q(2) [symmetric] by simp
  then have b3: "unat (le_byte 3 v) = q3" by (simp add: unat_le_byte q)
  have b2: "unat (le_byte 2 v) = r2" by (simp add: unat_le_byte q r2_def)
  have b1: "unat (le_byte 1 v) = r1" by (simp add: unat_le_byte r1_def q1_def)
  have b0: "unat (le_byte 0 v) = r0" by (simp add: unat_le_byte r0_def)
  have e0: "v = r0 + 256 * q1" by (simp add: r0_def q1_def)
  have e1: "q1 = r1 + 256 * q2" by (simp add: r1_def q2_def)
  have e2: "q2 = r2 + 256 * q3" by (simp add: r2_def q3_def)
  show ?thesis unfolding b0 b1 b2 b3 using e0 e1 e2 by linarith
qed

lemma le_bytes_16:
  "unat (le_byte 0 v) + 256 * unat (le_byte 1 v) = v mod 65536"
proof -
  define q1 where "q1 = v div 256"
  define r0 r1 where "r0 = v mod 256" and "r1 = q1 mod 256"
  have b1: "unat (le_byte 1 v) = r1" by (simp add: unat_le_byte r1_def q1_def)
  have b0: "unat (le_byte 0 v) = r0" by (simp add: unat_le_byte r0_def)
  have "v mod (256 * 256) = 256 * (v div 256 mod 256) + v mod 256" by (rule mod_mult2_eq)
  then have "v mod 65536 = r0 + 256 * r1"
    unfolding r0_def r1_def q1_def by simp
  then show ?thesis unfolding b0 b1 by simp
qed

lemma writeString_4:
  "offset + 4 \<le> length view \<Longrightarrow>
   writeString view offset [a, b, c, d] =
     Some (view[offset := le_byte 0 (unat a), offset + 1 := le_byte 0 (unat b),
                offset + 2 := le_byte 0 (unat c), offset + 3 := le_byte 0 (unat d)])"
  by (simp add: setUint8_def numeral_3_eq_3 add.assoc)

lemma getUint32_update:
  assumes "offset + 4 \<le> length view" "v < 4294967296"
  shows "getUint32 (view[offset := le_byte 0 v, offset + 1 := le_byte 1 v,
      offset + 2 := le_byte 2 v, offset + 3 := le_byte 3 v]) offset = v"
proof -
  have "getUint32 (view[offset := le_byte 0 v, offset + 1 := le_byte 1 v,
      offset + 2 := le_byte 2 v, offset + 3 := le_byte 3 v]) offset =
    unat (le_byte 0 v) + 256 * unat (le_byte 1 v) + 65536 * unat (le_byte 2 v) +
     16777216 * unat (le_byte 3 v)"
    using assms(1) by (simp add: getUint32_def)
  also have "\<dots> = v" using assms(2) by (rule le_bytes_32)
  finally show ?thesis .
qed

lemma getUint16_update:
  assumes "offset + 2 \<le> length view" "v < 65536"
  shows "getUint16 (view[offset := le_byte 0 v, offset + 1 := le_byte 1 v]) offset = v"
proof -
  have "getUint16 (view[offset := le_byte 0 v, offset + 1 := le_byte 1 v]) offset =
    unat (le_byte 0 v) + 256 * unat (le_byte 1 v)"
    using assms(1) by (simp add: getUint16_def)
  also have "\<dots> = v" using assms(2) le_bytes_16 [of v] by simp
  finally show ?thesis .
qed


lemma write_header_eq:
  assumes "44 \<le> length view"
  shows "write_header view samples = Some (header_written view samples)"
proof -
  have n: "Suc (Suc 0) = 2" "Suc (Suc (Suc 0)) = 3" by simp_all
  show ?thesis
    using assms
    by (simp add: write_header_def header_written_def lit_def setUint8_def setUint16_def
        setUint32_def sampleRate_def le_byte_def n)
qed

lemma length_header_written: "length (header_written view samples) = length view"
  by (simp add: header_written_def)

lemma drop_header_written: "drop 44 (header_written view samples) = drop 44 view"
  by (simp add: header_written_def drop_update_cancel)

lemma header_written_fields:
  assumes "44 \<le> length view" "samples \<le> 66150"
  shows "getString (header_written view samples) 0 4 = lit ''RIFF''"
    "getUint32 (header_written view samples) 4 = 36 + samples * 2"
    "getString (header_written view samples) 8 4 = lit ''WAVE''"
    "getString (header_written view samples) 12 4 = lit ''fmt ''"
    "getUint32 (header_written view samples) 16 = 16"
    "getUint16 (header_written view samples) 20 = 1"
    "getUint16 (header_written view samples) 22 = 1"
    "getUint32 (header_written view samples) 24 = 22050"
    "getUint32 (header_written view samples) 28 = 44100"
    "getUint16 (header_written view samples) 32 = 2"
    "getUint16 (header_written view samples) 34 = 16"
    "getString (header_written view samples) 36 4 = lit ''data''"
    "getUint32 (header_written view samples) 40 = samples * 2"
proof -
  have a: "36 + samples * 2 < 4294967296" "samples * 2 < 4294967296" using assms(2) by simp_all
  show "getUint32 (header_written view samples) 4 = 36 + samples * 2"
    using assms(1) le_bytes_32 [OF a(1)] by (simp add: getUint32_def header_written_def)
  show "getUint32 (header_written view samples) 40 = samples * 2"
    using assms(1) le_bytes_32 [OF a(2)] by (simp add: getUint32_def header_written_def)
  show "getUint32 (header_written view samples) 16 = 16"
    "getUint32 (header_written view samples) 24 = 22050"
    "getUint32 (header_written view samples) 28 = 44100"
    using assms(1) by (simp_all add: getUint32_def header_written_def)
  show "getUint16 (header_written view samples) 20 = 1"
    "getUint16 (header_written view samples) 22 = 1"
    "getUint16 (header_written view samples) 32 = 2"
    "getUint16 (header_written view samples) 34 = 16"
    using assms(1) by (simp_all add: getUint16_def header_written_def)
  have u: "[0..<4] = [0, 1, 2, 3]" by (simp add: upt_rec)
  have z: "view \<noteq> []" using assms(1) by auto
  show "getString (header_written view samples) 0 4 = lit ''RIFF''"
    "getString (header_written view samples) 8 4 = lit ''WAVE''"
    "getString (header_written view samples) 12 4 = lit ''fmt ''"
    "getString (header_written view samples) 36 4 = lit ''data''"
    using assms(1) z by (simp_all add: getString_def header_written_def lit_def u)
qed

subsection \<open>The sample loop\<close>

lemma write_samples_ok:
  "offset + 2 * length indices \<le> length view \<Longrightarrow>
   \<exists>view'. write_samples pcm indices offset view = Some view' \<and>
     length view' = length view \<and> take offset view' = take offset view"
proof (induction indices arbitrary: offset view)
  case Nil
  then show ?case by simp
next
  case (Cons i rest)
  let ?v = "view[offset := le_byte 0 (unat (pcm i)), offset + 1 := le_byte 1 (unat (pcm i))]"
  have s: "setInt16 view offset (pcm i) = Some ?v"
    using Cons.prems by (simp add: setInt16_def)
  have "offset + 2 + 2 * length rest \<le> length ?v" using Cons.prems by simp
  then obtain view' where v: "write_samples pcm rest (offset + 2) ?v = Some view'"
    "length view' = length ?v" "take (offset + 2) view' = take (offset + 2) ?v"
    using Cons.IH by blast
  have "take offset view' = take offset (take (offset + 2) view')" by (simp add: min_def)
  also have "\<dots> = take offset (take (offset + 2) ?v)" by (simp only: v(3))
  also have "\<dots> = take offset view" by (simp add: min_def)
  finally show ?case using s v by simp
qed

lemma take_nth_eq: "take n xs = take n ys \<Longrightarrow> i < n \<Longrightarrow> xs ! i = ys ! i"
  by (metis nth_take)

lemma header_agree:
  assumes "take 44 xs = take 44 ys"
  shows "k + 4 \<le> 44 \<Longrightarrow> getUint32 xs k = getUint32 ys k"
    "k + 2 \<le> 44 \<Longrightarrow> getUint16 xs k = getUint16 ys k"
    "k + 4 \<le> 44 \<Longrightarrow> getString xs k 4 = getString ys k 4"
  using take_nth_eq [OF assms]
  by (simp_all add: getUint32_def getUint16_def getString_def)

lemma wav_bytes_ok:
  assumes "samples \<le> 66150"
  shows "\<exists>bytes. wav_bytes samples pcm = Some bytes \<and> length bytes = 44 + samples * 2 \<and>
    getString bytes 0 4 = lit ''RIFF'' \<and> getUint32 bytes 4 = 36 + samples * 2 \<and>
    getString bytes 8 4 = lit ''WAVE'' \<and> getString bytes 12 4 = lit ''fmt '' \<and>
    getUint32 bytes 16 = 16 \<and> getUint16 bytes 20 = 1 \<and> getUint16 bytes 22 = 1 \<and>
    getUint32 bytes 24 = 22050 \<and> getUint32 bytes 28 = 44100 \<and> getUint16 bytes 32 = 2 \<and>
    getUint16 bytes 34 = 16 \<and> getString bytes 36 4 = lit ''data'' \<and>
    getUint32 bytes 40 = samples * 2"
proof -
  let ?buffer = "replicate (44 + samples * 2) (0 :: byte)"
  let ?h = "header_written ?buffer samples"
  have l: "44 \<le> length ?buffer" by simp
  have h: "write_header ?buffer samples = Some ?h" using l by (rule write_header_eq)
  have "44 + 2 * length [0..<samples] \<le> length ?h" by (simp add: length_header_written)
  then obtain bytes where b: "write_samples pcm [0..<samples] 44 ?h = Some bytes"
    "length bytes = length ?h" "take 44 bytes = take 44 ?h"
    using write_samples_ok by blast
  have w: "wav_bytes samples pcm = Some bytes" by (simp add: wav_bytes_def h b(1))
  note f = header_written_fields [OF l assms]
  note a = header_agree [OF b(3)]
  show ?thesis
    using w b(2) f by (simp add: a length_header_written)
qed

subsection \<open>Base64\<close>

lemma unat_base64_char: "unat (base64_char n) = base64_code n"
proof -
  have "base64_code n < 65536" by (auto simp: base64_code_def)
  then show ?thesis by (simp add: base64_char_def unat_of_nat)
qed

lemma base64_value_char: "n < 64 \<Longrightarrow> base64_value (base64_char n) = Some n"
  unfolding base64_value_def unat_base64_char Let_def
  by (auto simp: base64_code_def)

lemma base64_char_not_pad: "n < 64 \<Longrightarrow> base64_char n \<noteq> base64_pad"
proof
  assume "n < 64" "base64_char n = base64_pad"
  then have "unat (base64_char n) = 61" by (simp add: base64_pad_def)
  then show False unfolding unat_base64_char by (simp add: base64_code_def split: if_splits)
qed

lemma sextets:
  assumes "a < 256" "b < 256" "c < 256"
  shows "a div 4 < 64" "(a mod 4) * 16 + b div 16 < 64" "(b mod 16) * 4 + c div 64 < 64"
    "c mod 64 < (64 :: nat)" "(a mod 4) * 16 < 64" "(b mod 16) * 4 < 64"
  using assms by simp_all

lemma regroup:
  assumes "a < 256" "b < 256" "c < 256"
  shows "a div 4 * 4 + ((a mod 4) * 16 + b div 16) div 16 = (a :: nat)"
    "((a mod 4) * 16 + b div 16) mod 16 * 16 + ((b mod 16) * 4 + c div 64) div 4 = b"
    "((b mod 16) * 4 + c div 64) mod 4 * 64 + c mod 64 = c"
    "a div 4 * 4 + ((a mod 4) * 16) div 16 = a"
    "((a mod 4) * 16 + b div 16) mod 16 * 16 + ((b mod 16) * 4) div 4 = b"
    "(a mod 4) * 16 mod 16 = 0" "(b mod 16) * 4 mod 4 = 0"
proof -
  have 1: "b div 16 < 16" "c div 64 < 4" using assms by simp_all
  have 2: "((a mod 4) * 16 + b div 16) div 16 = a mod 4"
    "((a mod 4) * 16 + b div 16) mod 16 = b div 16"
    "((b mod 16) * 4 + c div 64) div 4 = b mod 16"
    "((b mod 16) * 4 + c div 64) mod 4 = c div 64"
    using 1 by simp_all
  show "a div 4 * 4 + ((a mod 4) * 16 + b div 16) div 16 = a" by (simp add: 2)
  show "((a mod 4) * 16 + b div 16) mod 16 * 16 + ((b mod 16) * 4 + c div 64) div 4 = b"
    by (simp only: 2) simp
  show "((b mod 16) * 4 + c div 64) mod 4 * 64 + c mod 64 = c" by (simp only: 2) simp
  show "a div 4 * 4 + ((a mod 4) * 16) div 16 = a" by simp
  show "((a mod 4) * 16 + b div 16) mod 16 * 16 + ((b mod 16) * 4) div 4 = b"
    by (simp only: 2) simp
  show "(a mod 4) * 16 mod 16 = 0" "(b mod 16) * 4 mod 4 = 0" by simp_all
qed


lemma base64_roundtrip:
  "list_all (\<lambda>x. x < 256) xs \<Longrightarrow> base64_decode (base64_encode xs) = Some (map of_nat xs)"
proof (induction xs rule: base64_encode.induct)
  case 1
  then show ?case by simp
next
  case (2 a)
  then have a: "a < 256" by simp
  note s = sextets [OF a a a]
  note r = regroup [OF a a a]
  show ?case
    by (simp add: base64_value_char s r)
next
  case (3 a b)
  then have a: "a < 256" and b: "b < 256" by simp_all
  define s0 s1 s2 where "s0 = a div 4" and "s1 = (a mod 4) * 16 + b div 16"
    and "s2 = (b mod 16) * 4"
  note s = sextets [OF a b b, folded s0_def s1_def s2_def]
  have v: "base64_value (base64_char s0) = Some s0" "base64_value (base64_char s1) = Some s1"
    "base64_value (base64_char s2) = Some s2"
    using s by (simp_all add: base64_value_char)
  have p: "base64_char s2 \<noteq> base64_pad" using s by (simp add: base64_char_not_pad)
  have r: "s0 * 4 + s1 div 16 = a" "s1 mod 16 * 16 + s2 div 4 = b" "s2 mod 4 = 0"
    unfolding s0_def s1_def s2_def using regroup [OF a b b] by simp_all
  have "base64_encode [a, b] = [base64_char s0, base64_char s1, base64_char s2, base64_pad]"
    by (simp add: s0_def s1_def s2_def)
  then show ?case by (simp add: v p r)
next
  case (4 a b c rest)
  then have a: "a < 256" and b: "b < 256" and c: "c < 256"
    and rest: "list_all (\<lambda>x. x < 256) rest" by simp_all
  define s0 s1 s2 s3 where "s0 = a div 4" and "s1 = (a mod 4) * 16 + b div 16"
    and "s2 = (b mod 16) * 4 + c div 64" and "s3 = c mod 64"
  note s = sextets [OF a b c, folded s0_def s1_def s2_def s3_def]
  have v: "base64_value (base64_char s0) = Some s0" "base64_value (base64_char s1) = Some s1"
    "base64_value (base64_char s2) = Some s2" "base64_value (base64_char s3) = Some s3"
    using s by (simp_all add: base64_value_char)
  have p: "base64_char s2 \<noteq> base64_pad" "base64_char s3 \<noteq> base64_pad"
    using s by (simp_all add: base64_char_not_pad)
  have r: "s0 * 4 + s1 div 16 = a" "s1 mod 16 * 16 + s2 div 4 = b" "s2 mod 4 * 64 + s3 = c"
    unfolding s0_def s1_def s2_def s3_def using regroup [OF a b c] by simp_all
  have d: "base64_decode (base64_encode rest) = Some (map of_nat rest)"
    using rest by (rule "4.IH")
  have "base64_encode (a # b # c # rest) =
      base64_char s0 # base64_char s1 # base64_char s2 # base64_char s3 # base64_encode rest"
    by (simp add: s0_def s1_def s2_def s3_def)
  then show ?case by (simp add: v p r d)
qed

lemma unat_byte_less: "unat (b :: byte) < 256"
  using unsigned_less [of b, where 'a = nat] by simp

lemma unat_ucast_byte: "unat (ucast (b :: byte) :: 16 word) = unat b"
  using unat_byte_less [of b] by (simp add: unsigned_ucast_eq take_bit_nat_eq_self)

lemma to_base64_decodes:
  "\<exists>s. to_base64 bytes = Some s \<and> base64_decode s = Some bytes"
proof -
  have 1: "list_all (\<lambda>c. c \<le> 255) (map ucast bytes :: jsstring)"
  proof -
    have "(ucast b :: 16 word) \<le> 255" for b :: byte
      using unat_byte_less [of b] by (simp add: word_le_nat_alt unat_ucast_byte)
    then show ?thesis by (simp add: list_all_iff)
  qed
  have 2: "map unat (map ucast bytes :: jsstring) = map unat bytes"
    by (simp add: unat_ucast_byte)
  have 3: "list_all (\<lambda>x. x < 256) (map unat bytes)"
    by (simp add: list_all_iff unat_byte_less)
  have "base64_decode (base64_encode (map unat bytes)) = Some (map of_nat (map unat bytes))"
    using 3 by (rule base64_roundtrip)
  moreover have "to_base64 bytes = Some (base64_encode (map unat bytes))"
    unfolding to_base64_def btoa_def by (simp only: 1 2 if_True)
  ultimately show ?thesis by (simp add: comp_def)
qed

subsection \<open>The reply\<close>

lemma generateAudioWithWebSpeechAPI_ok:
  "\<exists>s bytes. generateAudioWithWebSpeechAPI pcm text = Some s \<and> base64_decode s = Some bytes \<and>
    length bytes = 44 + nat (claimed_samples (length text)) * 2 \<and>
    getString bytes 0 4 = lit ''RIFF'' \<and>
    getUint32 bytes 4 = 36 + nat (claimed_samples (length text)) * 2 \<and>
    getString bytes 8 4 = lit ''WAVE'' \<and> getString bytes 12 4 = lit ''fmt '' \<and>
    getUint32 bytes 16 = 16 \<and> getUint16 bytes 20 = 1 \<and> getUint16 bytes 22 = 1 \<and>
    getUint32 bytes 24 = 22050 \<and> getUint32 bytes 28 = 44100 \<and> getUint16 bytes 32 = 2 \<and>
    getUint16 bytes 34 = 16 \<and> getString bytes 36 4 = lit ''data'' \<and>
    getUint32 bytes 40 = nat (claimed_samples (length text)) * 2"
proof -
  define n where "n = nat (claimed_samples (length text))"
  have w: "web_speech_samples (length text) = int n" "\<not> web_speech_samples (length text) < 0"
    using claimed_samples_nonneg [of "length text"]
    by (simp_all add: n_def web_speech_samples_eq)
  have "n \<le> 66150" using claimed_samples_le [of "length text"] by (simp add: n_def)
  then obtain bytes where b: "wav_bytes n pcm = Some bytes" "length bytes = 44 + n * 2"
    "getString bytes 0 4 = lit ''RIFF''" "getUint32 bytes 4 = 36 + n * 2"
    "getString bytes 8 4 = lit ''WAVE''" "getString bytes 12 4 = lit ''fmt ''"
    "getUint32 bytes 16 = 16" "getUint16 bytes 20 = 1" "getUint16 bytes 22 = 1"
    "getUint32 bytes 24 = 22050" "getUint32 bytes 28 = 44100" "getUint16 bytes 32 = 2"
    "getUint16 bytes 34 = 16" "getString bytes 36 4 = lit ''data''"
    "getUint32 bytes 40 = n * 2"
    using wav_bytes_ok [of n pcm] by blast
  obtain s where s: "to_base64 bytes = Some s" "base64_decode s = Some bytes"
    using to_base64_decodes by blast
  have "generateAudioWithWebSpeechAPI pcm text = Some s"
    by (simp add: generateAudioWithWebSpeechAPI_def Let_def w b(1) s(1))
  then show ?thesis
    using s(2) b(2-) unfolding n_def [symmetric] by blast
qed

text \<open>
  Claim C4.  For every request with a non-empty text the route answers with the success
  reply of method \<open>web_speech_api\<close> whose \<open>audioBase64\<close> decodes to \<open>44 + 2 * n\<close> bytes,
  where \<open>n\<close> is the floor of \<open>22050 * min (0.07 * length text) 3\<close>.  The header in the
  first 44 bytes has the tags \<open>RIFF\<close> and \<open>WAVE\<close>, format code 1 (PCM), 1 channel, sample
  rate 22050, 16 bits per sample, RIFF size \<open>36 + 2 * n\<close> and data size \<open>2 * n\<close>.
\<close>

theorem tts_POST_wav:
  assumes "tts_request_json env = Some body" "tts_text body \<noteq> []"
  shows "\<exists>audioBase64 bytes n.
    tts_POST env = Synthesized audioBase64 (tts_text body) (lit ''web_speech_api'') \<and>
    base64_decode audioBase64 = Some bytes \<and>
    n = nat \<lfloor>22050 * min (7 / 100 * of_nat (length (tts_text body))) (3 :: rat)\<rfloor> \<and>
    length bytes = 44 + 2 * n \<and>
    getString bytes 0 4 = lit ''RIFF'' \<and> getString bytes 8 4 = lit ''WAVE'' \<and>
    getUint16 bytes 20 = 1 \<and> getUint16 bytes 22 = 1 \<and> getUint32 bytes 24 = 22050 \<and>
    getUint16 bytes 34 = 16 \<and> getUint32 bytes 4 = 36 + 2 * n \<and>
    getString bytes 36 4 = lit ''data'' \<and> getUint32 bytes 40 = 2 * n"
proof -
  obtain s bytes where g:
    "generateAudioWithWebSpeechAPI (web_speech_pcm env) (tts_text body) = Some s"
    "base64_decode s = Some bytes"
    "length bytes = 44 + nat (claimed_samples (length (tts_text body))) * 2"
    "getString bytes 0 4 = lit ''RIFF''"
    "getUint32 bytes 4 = 36 + nat (claimed_samples (length (tts_text body))) * 2"
    "getString bytes 8 4 = lit ''WAVE''"
    "getUint16 bytes 20 = 1" "getUint16 bytes 22 = 1"
    "getUint32 bytes 24 = 22050"
    "getUint16 bytes 34 = 16" "getString bytes 36 4 = lit ''data''"
    "getUint32 bytes 40 = nat (claimed_samples (length (tts_text body))) * 2"
    using generateAudioWithWebSpeechAPI_ok [of "web_speech_pcm env" "tts_text body"] by blast
  have p: "tts_POST env = Synthesized s (tts_text body) (lit ''web_speech_api'')"
    using assms by (simp add: tts_POST_def g(1))
  show ?thesis
    apply (rule exI [of _ s])
    apply (rule exI [of _ bytes])
    apply (rule exI [of _ "nat (claimed_samples (length (tts_text body)))"])
    using p g(2-) by (simp add: claimed_samples_def)
qed

theorem tts_POST_wav_witness:
  "tts_request_json silent_request = Some \<lparr>tts_text = lit ''hi'', tts_urduType = lit ''roman''\<rparr> \<and>
   tts_text \<lparr>tts_text = lit ''hi'', tts_urduType = lit ''roman''\<rparr> \<noteq> [] \<and>
   (\<exists>audioBase64 bytes.
      tts_POST silent_request = Synthesized audioBase64 (lit ''hi'') (lit ''web_speech_api'') \<and>
      base64_decode audioBase64 = Some bytes \<and> length bytes = 6218 \<and>
      getUint32 bytes 4 = 6210 \<and> getUint32 bytes 40 = 6174)"
proof -
  have a: "tts_request_json silent_request =
      Some \<lparr>tts_text = lit ''hi'', tts_urduType = lit ''roman''\<rparr>"
    by (simp add: silent_request_def)
  have b: "tts_text \<lparr>tts_text = lit ''hi'', tts_urduType = lit ''roman''\<rparr> \<noteq> []"
    by (simp add: lit_def)
  have n: "nat \<lfloor>22050 * min (7 / 100 *
      of_nat (length (tts_text \<lparr>tts_text = lit ''hi'', tts_urduType = lit ''roman''\<rparr>))) (3 :: rat)\<rfloor>
      = 3087"
    by (simp add: lit_def floor_rat_numeral)
  from tts_POST_wav [OF a b] show ?thesis
    unfolding n using a b by auto
qed

end
